theory Spec2Isabelle
  imports Complex_Main "HOL-Library.AList"
begin

section \<open>The notebook's helpers\<close>

text \<open>
  The embedding follows \<^verbatim>\<open>notebooks/example.ipynb\<close>. Python floats are read as
  real numbers (no rounding, no NaN, no infinities); Python ints as \<open>int\<close>. An
  exception is a value of \<open>py_error\<close>, returned as \<open>Inl\<close>.
\<close>

datatype py_error = KeyError | ZeroDivisionError

text \<open>\<^verbatim>\<open>def mean(it): return sum(it) / len(it)\<close>\<close>

definition mean :: "real list \<Rightarrow> py_error + real" where
  "mean it = (if length it = 0 then Inl ZeroDivisionError
              else Inr (sum_list it / real (length it)))"

section \<open>MyFace\<close>

text \<open>
  \<^verbatim>\<open>self.i\<close> and \<^verbatim>\<open>self.posts\<close> of \<^verbatim>\<open>MyFace(Face[int, bool])\<close>: identifiers are ints,
  contents are bools.
\<close>

record MyFace =
  face_i :: int
  face_posts :: "int \<rightharpoonup> bool"

definition MyFace_init :: MyFace where
  "MyFace_init = \<lparr>face_i = 0, face_posts = Map.empty\<rparr>"

text \<open>\<^verbatim>\<open>n = limit or 100\<close>: \<^verbatim>\<open>None\<close> and \<^verbatim>\<open>0\<close> are falsy, every other int is truthy.\<close>

definition limit_or_100 :: "int option \<Rightarrow> int" where
  "limit_or_100 limit = (case limit of None \<Rightarrow> 100 | Some l \<Rightarrow> if l = 0 then 100 else l)"

text \<open>
  \<^verbatim>\<open>scrap\<close> is an async generator. Calling it only creates the generator object
  (\<open>Created\<close>); the body runs when the consumer asks for the next item. The first
  request executes \<^verbatim>\<open>n = limit or 100; self.i = n + 1\<close> and enters the loop;
  \<open>Running n k\<close> is the generator suspended at a \<^verbatim>\<open>yield\<close> with \<open>k\<close> the next value of
  the loop variable; a result \<open>None\<close> is \<^verbatim>\<open>StopAsyncIteration\<close>.
\<close>

datatype scrap_gen = Created "int option" | Running int int | Exhausted

definition scrap :: "MyFace \<Rightarrow> int option \<Rightarrow> scrap_gen" where
  "scrap f limit = Created limit"

definition scrap_loop :: "MyFace \<Rightarrow> int \<Rightarrow> int \<Rightarrow> MyFace \<times> scrap_gen \<times> (int \<times> bool) option" where
  "scrap_loop f n k =
     (if k < n then (f, Running n (k + 1), Some (k, k mod 3 = 0)) else (f, Exhausted, None))"

fun scrap_next :: "MyFace \<Rightarrow> scrap_gen \<Rightarrow> MyFace \<times> scrap_gen \<times> (int \<times> bool) option" where
  "scrap_next f (Created limit) =
     (let n = limit_or_100 limit in scrap_loop (f\<lparr>face_i := n + 1\<rparr>) n 0)"
| "scrap_next f (Running n k) = scrap_loop f n k"
| "scrap_next f Exhausted = (f, Exhausted, None)"

text \<open>\<^verbatim>\<open>[post async for post in gen]\<close>: the generator consumed to exhaustion.\<close>

function scrap_collect :: "MyFace \<Rightarrow> scrap_gen \<Rightarrow> MyFace \<times> (int \<times> bool) list" where
  "scrap_collect f g =
     (case scrap_next f g of
        (f', g', None) \<Rightarrow> (f', [])
      | (f', g', Some x) \<Rightarrow> (case scrap_collect f' g' of (f'', xs) \<Rightarrow> (f'', x # xs)))"
  by pat_completeness auto
termination
proof (relation "measure (\<lambda>(f, g). case g of
          Created limit \<Rightarrow> nat (limit_or_100 limit) + 1
        | Running n k \<Rightarrow> nat (n - k)
        | Exhausted \<Rightarrow> 0)")
  show "wf (measure (\<lambda>(f, g). case g of
          Created limit \<Rightarrow> nat (limit_or_100 limit) + 1
        | Running n k \<Rightarrow> nat (n - k)
        | Exhausted \<Rightarrow> 0))"
    by simp
next
  fix f g x2 f' y g' r x
  assume "(f', y) = scrap_next f g" "(g', r) = y" "r = Some x"
  then have nxt: "scrap_next f g = (f', g', Some x)"
    by simp
  show "((f', g'), (f, g)) \<in> measure (\<lambda>(f, g). case g of
          Created limit \<Rightarrow> nat (limit_or_100 limit) + 1
        | Running n k \<Rightarrow> nat (n - k)
        | Exhausted \<Rightarrow> 0)"
    using nxt by (cases g) (auto simp: scrap_loop_def Let_def split: if_splits)
qed

declare scrap_collect.simps [simp del]

definition scrap_all :: "MyFace \<Rightarrow> int option \<Rightarrow> MyFace \<times> (int \<times> bool) list" where
  "scrap_all f limit = scrap_collect f (scrap f limit)"

text \<open>
  \<^verbatim>\<open>post\<close>: \<^verbatim>\<open>post_id = self.i; self.i += 1; self.posts[post_id] = data; return post_id\<close>.
\<close>

definition post :: "MyFace \<Rightarrow> bool \<Rightarrow> MyFace \<times> int" where
  "post f data =
     (let post_id = face_i f
      in (f\<lparr>face_i := face_i f + 1, face_posts := (face_posts f)(post_id \<mapsto> data)\<rparr>, post_id))"

text \<open>
  \<^verbatim>\<open>score\<close>: \<^verbatim>\<open>return int(self.posts[post_id]) * 2 - 1\<close>; the subscript raises
  \<^verbatim>\<open>KeyError\<close> for a missing key. The face is not changed.
\<close>

definition int_of_bool :: "bool \<Rightarrow> int" where
  "int_of_bool b = (if b then 1 else 0)"

definition score :: "MyFace \<Rightarrow> int \<Rightarrow> py_error + int" where
  "score f post_id =
     (case face_posts f post_id of
        None \<Rightarrow> Inl KeyError
      | Some data \<Rightarrow> Inr (int_of_bool data * 2 - 1))"

section \<open>Model and the two modules\<close>

text \<open>
  \<^verbatim>\<open>class Model\<close>: the attribute \<^verbatim>\<open>_p\<close>, its property \<^verbatim>\<open>p\<close> (\<open>get_p\<close>) and the
  setter \<^verbatim>\<open>self._p = max(min(value, 1), 0)\<close> (\<open>set_p\<close>). The constructor stores its
  argument as it is; the default is \<^verbatim>\<open>p=0.5\<close>.
\<close>

record Model =
  priv_p :: real

definition Model_init :: "real \<Rightarrow> Model" where
  "Model_init p0 = \<lparr>priv_p = p0\<rparr>"

definition Model_default :: Model where
  "Model_default = Model_init 0.5"

definition get_p :: "Model \<Rightarrow> real" where
  "get_p m = priv_p m"

definition set_p :: "Model \<Rightarrow> real \<Rightarrow> Model" where
  "set_p m v = m\<lparr>priv_p := max (min v 1) 0\<rparr>"

text \<open>
  The setter on Python's floats, beyond the numbers: a float is a number, an infinity or
  NaN. \<open>float_lt\<close> and \<open>float_le\<close> are \<^verbatim>\<open><\<close> and \<^verbatim>\<open><=\<close>, false whenever an
  operand is NaN. The builtins compare as CPython does: \<^verbatim>\<open>min(a, b)\<close> is \<open>b\<close> if
  \<^verbatim>\<open>b < a\<close> and \<open>a\<close> otherwise, \<^verbatim>\<open>max(a, b)\<close> is \<open>b\<close> if \<^verbatim>\<open>b > a\<close> and \<open>a\<close>
  otherwise. \<open>setter_value\<close> is the value \<^verbatim>\<open>max(min(value, 1), 0)\<close> that the setter
  stores, and \<open>in_unit\<close> is \<^verbatim>\<open>0 <= p <= 1\<close>. On numbers \<open>setter_value\<close> is what
  \<open>set_p\<close> stores.
\<close>

datatype pyfloat = Fin real | PosInf | NegInf | NaN

fun float_lt :: "pyfloat \<Rightarrow> pyfloat \<Rightarrow> bool" where
  "float_lt (Fin a) (Fin b) = (a < b)"
| "float_lt (Fin a) PosInf = True"
| "float_lt NegInf (Fin b) = True"
| "float_lt NegInf PosInf = True"
| "float_lt a b = False"

definition float_le :: "pyfloat \<Rightarrow> pyfloat \<Rightarrow> bool" where
  "float_le a b = (float_lt a b \<or> (a = b \<and> a \<noteq> NaN))"

definition py_min :: "pyfloat \<Rightarrow> pyfloat \<Rightarrow> pyfloat" where
  "py_min a b = (if float_lt b a then b else a)"

definition py_max :: "pyfloat \<Rightarrow> pyfloat \<Rightarrow> pyfloat" where
  "py_max a b = (if float_lt a b then b else a)"

definition setter_value :: "pyfloat \<Rightarrow> pyfloat" where
  "setter_value v = py_max (py_min v (Fin 1)) (Fin 0)"

definition in_unit :: "pyfloat \<Rightarrow> bool" where
  "in_unit x = (float_le (Fin 0) x \<and> float_le x (Fin 1))"

text \<open>
  Both modules hold a reference to the same \<^verbatim>\<open>Model\<close> object, so the model is kept
  apart from the modules' own attributes and passed along with them.
  \<^verbatim>\<open>MyOfflineModule\<close>: \<^verbatim>\<open>deltas\<close> and \<^verbatim>\<open>alpha\<close> (default 0.001).
\<close>

record MyOfflineModule =
  off_deltas :: "real list"
  off_alpha :: real

definition MyOfflineModule_init :: "real \<Rightarrow> MyOfflineModule" where
  "MyOfflineModule_init a = \<lparr>off_deltas = [], off_alpha = a\<rparr>"

text \<open>
  \<^verbatim>\<open>fit(posts)\<close>: \<^verbatim>\<open>p_est = sum(int(post) for post in posts) / len(posts)\<close>, then
  \<^verbatim>\<open>self.deltas.append(p_est - self.model.p)\<close>. An empty batch divides by zero before
  anything is appended.
\<close>

definition offline_fit :: "Model \<times> MyOfflineModule \<Rightarrow> bool list \<Rightarrow> py_error + Model \<times> MyOfflineModule" where
  "offline_fit s posts =
     (case s of (m, om) \<Rightarrow>
        if length posts = 0 then Inl ZeroDivisionError
        else let p_est = real_of_int (sum_list (map int_of_bool posts)) / real (length posts)
             in Inr (m, om\<lparr>off_deltas := off_deltas om @ [p_est - get_p m]\<rparr>))"

text \<open>
  \<^verbatim>\<open>step()\<close>: \<^verbatim>\<open>self.model.p = self.model.p + self.alpha * mean(self.deltas)\<close>,
  \<^verbatim>\<open>self.deltas = []\<close>, \<^verbatim>\<open>return self\<close>. The right-hand side is evaluated first, so
  when \<^verbatim>\<open>mean\<close> raises nothing has been assigned.
\<close>

definition offline_step :: "Model \<times> MyOfflineModule \<Rightarrow> py_error + Model \<times> MyOfflineModule" where
  "offline_step s =
     (case s of (m, om) \<Rightarrow>
        case mean (off_deltas om) of
          Inl e \<Rightarrow> Inl e
        | Inr mu \<Rightarrow> Inr (set_p m (get_p m + off_alpha om * mu), om\<lparr>off_deltas := []\<rparr>))"

text \<open>
  \<^verbatim>\<open>MyOnlineModule\<close>: \<^verbatim>\<open>deltas\<close>, \<^verbatim>\<open>alpha\<close> (default 0.1), \<^verbatim>\<open>posts\<close> and \<^verbatim>\<open>i\<close>.
\<close>

record MyOnlineModule =
  on_deltas :: "real list"
  on_alpha :: real
  on_posts :: "int \<rightharpoonup> bool"
  on_i :: int

definition MyOnlineModule_init :: "real \<Rightarrow> MyOnlineModule" where
  "MyOnlineModule_init a = \<lparr>on_deltas = [], on_alpha = a, on_posts = Map.empty, on_i = 0\<rparr>"

text \<open>
  \<^verbatim>\<open>sample(n)\<close> draws \<^verbatim>\<open>random.choices([True, False], weights=..., k=n)\<close> and then, for
  each drawn post, stores it under \<^verbatim>\<open>self.i\<close>, yields \<^verbatim>\<open>(self.i, post)\<close> and increments
  \<^verbatim>\<open>self.i\<close>. The draw is an argument here (\<open>n\<close> is its length), and the generator
  is consumed to exhaustion. The model is read for the weights only.
\<close>

fun sample_loop :: "MyOnlineModule \<Rightarrow> bool list \<Rightarrow> MyOnlineModule \<times> (int \<times> bool) list" where
  "sample_loop om [] = (om, [])"
| "sample_loop om (x # drawn) =
     (let om1 = om\<lparr>on_posts := (on_posts om)(on_i om \<mapsto> x)\<rparr>;
          item = (on_i om1, x);
          om2 = om1\<lparr>on_i := on_i om1 + 1\<rparr>
      in case sample_loop om2 drawn of (om3, items) \<Rightarrow> (om3, item # items))"

definition sample :: "Model \<times> MyOnlineModule \<Rightarrow> bool list \<Rightarrow> (Model \<times> MyOnlineModule) \<times> (int \<times> bool) list" where
  "sample s drawn =
     (case s of (m, om) \<Rightarrow> case sample_loop om drawn of (om', items) \<Rightarrow> ((m, om'), items))"

text \<open>
  \<^verbatim>\<open>fit(scores)\<close>. First
  \<^verbatim>\<open>scores = {self.posts[post_id]: score for post_id, score in scores.items()}\<close>: a
  dict keyed by content, built in the order of the items; a key met again keeps its place
  and takes the later score (\<open>AList.update\<close>); a missing \<^verbatim>\<open>post_id\<close> raises
  \<^verbatim>\<open>KeyError\<close>. Then
  \<^verbatim>\<open>delta = sum((int(x) - self.model.p) * score for x, score in scores.items()) / len(scores)\<close>
  over the new dict, and \<^verbatim>\<open>self.deltas.append(delta)\<close>.
\<close>

fun by_content :: "MyOnlineModule \<Rightarrow> (int \<times> real) list \<Rightarrow> (bool \<times> real) list \<Rightarrow> py_error + (bool \<times> real) list" where
  "by_content om [] acc = Inr acc"
| "by_content om ((post_id, sc) # rest) acc =
     (case on_posts om post_id of
        None \<Rightarrow> Inl KeyError
      | Some x \<Rightarrow> by_content om rest (AList.update x sc acc))"

definition online_fit :: "Model \<times> MyOnlineModule \<Rightarrow> (int \<times> real) list \<Rightarrow> py_error + Model \<times> MyOnlineModule" where
  "online_fit s scores =
     (case s of (m, om) \<Rightarrow>
        case by_content om scores [] of
          Inl e \<Rightarrow> Inl e
        | Inr scores' \<Rightarrow>
            if length scores' = 0 then Inl ZeroDivisionError
            else let delta = sum_list (map (\<lambda>(x, sc). (real_of_int (int_of_bool x) - get_p m) * sc) scores')
                               / real (length scores')
                 in Inr (m, om\<lparr>on_deltas := on_deltas om @ [delta]\<rparr>))"

definition online_step :: "Model \<times> MyOnlineModule \<Rightarrow> py_error + Model \<times> MyOnlineModule" where
  "online_step s =
     (case s of (m, om) \<Rightarrow>
        case mean (on_deltas om) of
          Inl e \<Rightarrow> Inl e
        | Inr mu \<Rightarrow> Inr (set_p m (get_p m + on_alpha om * mu), om\<lparr>on_deltas := []\<rparr>))"

section \<open>The objects of the notebook and sequences of calls\<close>

text \<open>
  The objects the notebook creates: one face, one model, and the two modules that share
  the model.
\<close>

record notebook =
  face :: MyFace
  model :: Model
  offline_module :: MyOfflineModule
  online_module :: MyOnlineModule

definition notebook_init :: notebook where
  "notebook_init = \<lparr>face = MyFace_init, model = Model_default,
                  offline_module = MyOfflineModule_init 0.001,
                  online_module = MyOnlineModule_init 0.1\<rparr>"

text \<open>
  A call on one of the two modules, with its argument (for \<open>OnlineSample\<close> the draw of
  \<^verbatim>\<open>random.choices\<close>). \<open>call\<close> performs it on these objects; \<open>calls\<close> performs a
  sequence and stops at the first exception.
\<close>

datatype module_call =
    OfflineFit "bool list"
  | OfflineStep
  | OnlineSample "bool list"
  | OnlineFit "(int \<times> real) list"
  | OnlineStep

fun call :: "notebook \<Rightarrow> module_call \<Rightarrow> py_error + notebook" where
  "call s (OfflineFit posts) =
     (case offline_fit (model s, offline_module s) posts of
        Inl e \<Rightarrow> Inl e
      | Inr (m, om) \<Rightarrow> Inr (s\<lparr>model := m, offline_module := om\<rparr>))"
| "call s OfflineStep =
     (case offline_step (model s, offline_module s) of
        Inl e \<Rightarrow> Inl e
      | Inr (m, om) \<Rightarrow> Inr (s\<lparr>model := m, offline_module := om\<rparr>))"
| "call s (OnlineSample drawn) =
     (case sample (model s, online_module s) drawn of
        ((m, om), items) \<Rightarrow> Inr (s\<lparr>model := m, online_module := om\<rparr>))"
| "call s (OnlineFit scores) =
     (case online_fit (model s, online_module s) scores of
        Inl e \<Rightarrow> Inl e
      | Inr (m, om) \<Rightarrow> Inr (s\<lparr>model := m, online_module := om\<rparr>))"
| "call s OnlineStep =
     (case online_step (model s, online_module s) of
        Inl e \<Rightarrow> Inl e
      | Inr (m, om) \<Rightarrow> Inr (s\<lparr>model := m, online_module := om\<rparr>))"

fun calls :: "notebook \<Rightarrow> module_call list \<Rightarrow> py_error + notebook" where
  "calls s [] = Inr s"
| "calls s (c # cs) = (case call s c of Inl e \<Rightarrow> Inl e | Inr s' \<Rightarrow> calls s' cs)"

text \<open>
  History predicates for sequences of calls: how many \<^verbatim>\<open>fit\<close> calls of a module were
  made since that module's last \<^verbatim>\<open>step\<close> (\<open>k\<close> of them before the sequence starts).
\<close>

fun offline_fits_since_step :: "nat \<Rightarrow> module_call list \<Rightarrow> nat" where
  "offline_fits_since_step k [] = k"
| "offline_fits_since_step k (OfflineFit posts # cs) = offline_fits_since_step (Suc k) cs"
| "offline_fits_since_step k (OfflineStep # cs) = offline_fits_since_step 0 cs"
| "offline_fits_since_step k (c # cs) = offline_fits_since_step k cs"

fun online_fits_since_step :: "nat \<Rightarrow> module_call list \<Rightarrow> nat" where
  "online_fits_since_step k [] = k"
| "online_fits_since_step k (OnlineFit scores # cs) = online_fits_since_step (Suc k) cs"
| "online_fits_since_step k (OnlineStep # cs) = online_fits_since_step 0 cs"
| "online_fits_since_step k (c # cs) = online_fits_since_step k cs"

fun is_online_call :: "module_call \<Rightarrow> bool" where
  "is_online_call (OnlineSample drawn) = True"
| "is_online_call (OnlineFit scores) = True"
| "is_online_call OnlineStep = True"
| "is_online_call c = False"

text \<open>
  The scoring the notebook demonstrates: the score handed to \<^verbatim>\<open>fit\<close> for a post is what
  \<^verbatim>\<open>MyFace.score\<close> computes from the content the module sampled under that identifier,
  \<^verbatim>\<open>int(content) * 2 - 1\<close>. \<open>scored_as_demonstrated\<close> asks this of every
  \<open>OnlineFit\<close> of a sequence of calls, at the moment of the call.
\<close>

definition demonstrated_scores :: "MyOnlineModule \<Rightarrow> (int \<times> real) list \<Rightarrow> bool" where
  "demonstrated_scores om scores =
     list_all (\<lambda>(post_id, sc). case on_posts om post_id of
                                   None \<Rightarrow> True
                                 | Some x \<Rightarrow> sc = real_of_int (int_of_bool x * 2 - 1)) scores"

fun scored_as_demonstrated :: "notebook \<Rightarrow> module_call list \<Rightarrow> bool" where
  "scored_as_demonstrated s [] = True"
| "scored_as_demonstrated s (c # cs) =
     ((case c of OnlineFit scores \<Rightarrow> demonstrated_scores (online_module s) scores | _ \<Rightarrow> True)
      \<and> (case call s c of Inl e \<Rightarrow> True | Inr s' \<Rightarrow> scored_as_demonstrated s' cs))"

definition nonneg :: "real list \<Rightarrow> bool" where
  "nonneg ds = list_all (\<lambda>d. 0 \<le> d) ds"

section \<open>Sequences of calls on the face\<close>

text \<open>
  A run of \<^verbatim>\<open>scrap\<close> (consumed to exhaustion) and \<^verbatim>\<open>post\<close> calls on a face, with the
  identifiers it produced: those yielded by \<^verbatim>\<open>scrap\<close> and those returned by \<^verbatim>\<open>post\<close>,
  in order.
\<close>

datatype face_call = Scrap "int option" | Post bool

record face_run =
  run_face :: MyFace
  scrapped :: "int list"
  posted :: "int list"

fun face_do :: "face_run \<Rightarrow> face_call \<Rightarrow> face_run" where
  "face_do r (Scrap limit) =
     (case scrap_all (run_face r) limit of
        (f, items) \<Rightarrow> r\<lparr>run_face := f, scrapped := scrapped r @ map fst items\<rparr>)"
| "face_do r (Post data) =
     (case post (run_face r) data of
        (f, post_id) \<Rightarrow> r\<lparr>run_face := f, posted := posted r @ [post_id]\<rparr>)"

definition face_calls :: "MyFace \<Rightarrow> face_call list \<Rightarrow> face_run" where
  "face_calls f cs = foldl face_do \<lparr>run_face = f, scrapped = [], posted = []\<rparr> cs"

text \<open>
  Auxiliary predicates: a content-keyed score dict in which every content carries the
  demonstrated score, and the facts that hold throughout online training (the parameter
  in range, a non-negative learning rate, no negative delta pending).
\<close>

definition scored_by_content :: "(bool \<times> real) list \<Rightarrow> bool" where
  "scored_by_content al = list_all (\<lambda>(x, sc). sc = real_of_int (int_of_bool x * 2 - 1)) al"

definition online_inv :: "notebook \<Rightarrow> bool" where
  "online_inv s = (0 \<le> get_p (model s) \<and> get_p (model s) \<le> 1
                   \<and> 0 \<le> on_alpha (online_module s) \<and> nonneg (on_deltas (online_module s)))"

section \<open>Lazy scrapes interleaved with posts\<close>

text \<open>
  A run on a face in which \<^verbatim>\<open>scrap\<close> is used as the generator it is: \<open>CallScrap\<close> is
  the call \<^verbatim>\<open>face.scrap(limit)\<close>, which only creates a generator (the generators of a run
  are numbered in the order of their creation); \<open>Request j\<close> asks generator \<open>j\<close> for
  its next item, which runs its body up to the next \<^verbatim>\<open>yield\<close> (the first request also
  executes \<^verbatim>\<open>self.i = n + 1\<close>); \<open>CallPost\<close> is \<^verbatim>\<open>face.post(data)\<close>. A program cannot
  name a generator it has not created, so a request with such a number does nothing. The
  run records the identifiers yielded and the identifiers returned, in order.
\<close>

datatype face_step = CallScrap "int option" | Request nat | CallPost bool

record lazy_run =
  lz_face :: MyFace
  lz_gens :: "scrap_gen list"
  lz_scrapped :: "int list"
  lz_posted :: "int list"

fun lazy_do :: "lazy_run \<Rightarrow> face_step \<Rightarrow> lazy_run" where
  "lazy_do r (CallScrap limit) = r\<lparr>lz_gens := lz_gens r @ [scrap (lz_face r) limit]\<rparr>"
| "lazy_do r (Request j) =
     (if j < length (lz_gens r)
      then (case scrap_next (lz_face r) (lz_gens r ! j) of
              (f, g, item) \<Rightarrow>
                r\<lparr>lz_face := f, lz_gens := (lz_gens r)[j := g],
                  lz_scrapped := lz_scrapped r @
                    (case item of None \<Rightarrow> [] | Some (post_id, content) \<Rightarrow> [post_id])\<rparr>)
      else r)"
| "lazy_do r (CallPost data) =
     (case post (lz_face r) data of
        (f, post_id) \<Rightarrow> r\<lparr>lz_face := f, lz_posted := lz_posted r @ [post_id]\<rparr>)"

definition lazy_start :: "MyFace \<Rightarrow> lazy_run" where
  "lazy_start f = \<lparr>lz_face = f, lz_gens = [], lz_scrapped = [], lz_posted = []\<rparr>"

definition lazy_calls :: "MyFace \<Rightarrow> face_step list \<Rightarrow> lazy_run" where
  "lazy_calls f cs = foldl lazy_do (lazy_start f) cs"

definition identifiers :: "lazy_run \<Rightarrow> int list" where
  "identifiers r = lz_scrapped r @ lz_posted r"






section \<open>The training engine, as the specification describes it\<close>

text \<open>
  The notebook imports the trainers, the posts loader, the dataset factories, the stop
  conditions, the generator and the scheduler from \<^verbatim>\<open>kilroylib.training\<close> and
  \<^verbatim>\<open>kilroylib.data\<close>; their source is not in this snapshot, only the notebook that
  calls them. The definitions of this section follow the specification's description of
  these components. The module is a parameter: a state of any type \<open>'m\<close> with the
  operations of the module contract, so that the engine can reach the module through
  these operations only.
\<close>

text \<open>
  Modelled from the spec: the stop state of a trainer, "counters (epochs completed,
  updates completed) maintained by the trainer and consulted by the stop condition each
  iteration". The trainer's source is missing.
\<close>

record stop_state =
  epochs :: nat
  updates :: nat

text \<open>
  Modelled from the spec: the stop state at the start of a training (the trainers are
  missing): nothing completed yet.
\<close>

definition stop_state_init :: stop_state where
  "stop_state_init = \<lparr>epochs = 0, updates = 0\<rparr>"

text \<open>
  Modelled from the spec: the stop condition \<^verbatim>\<open>MaxEpochs(n)\<close> of
  \<^verbatim>\<open>kilroylib.training.offline.stop\<close> (missing), a "pluggable predicate" on the stop
  state, "maximum epoch count": satisfied once \<open>n\<close> epochs are completed.
\<close>

definition MaxEpochs :: "nat \<Rightarrow> stop_state \<Rightarrow> bool" where
  "MaxEpochs n st = (n \<le> epochs st)"

text \<open>
  Modelled from the spec: the stop condition \<^verbatim>\<open>MaxUpdates(n)\<close> of
  \<^verbatim>\<open>kilroylib.training.online.stop\<close> (missing), "maximum update count": satisfied once
  \<open>n\<close> updates are completed.
\<close>

definition MaxUpdates :: "nat \<Rightarrow> stop_state \<Rightarrow> bool" where
  "MaxUpdates n st = (n \<le> updates st)"

text \<open>
  Modelled from the spec: the two dataset factories of \<^verbatim>\<open>kilroylib.data\<close> (missing),
  "at least two strategies -- in-memory caching and file-backed caching".
\<close>

datatype dataset_factory = MemoryCachingDatasetFactory | FileCachingDatasetFactory

text \<open>
  Modelled from the spec: the dataset a factory creates (missing), which "wraps a bulk
  loader of historical posts" and is "used to avoid redundant refetching across training
  epochs". It knows the limit its loader passes to \<^verbatim>\<open>scrap\<close> (\<open>None\<close> for the default
  call) and keeps the fetched posts, in memory or in a file, once they are fetched.
\<close>

datatype dataset =
    MemoryDataset "int option" "(int \<times> bool) list option"
  | FileDataset "int option" "(int \<times> bool) list option"

text \<open>Modelled from the spec: creating a dataset with a factory (missing); nothing is fetched yet.\<close>

fun create :: "dataset_factory \<Rightarrow> int option \<Rightarrow> dataset" where
  "create MemoryCachingDatasetFactory limit = MemoryDataset limit None"
| "create FileCachingDatasetFactory limit = FileDataset limit None"

text \<open>Modelled from the spec: what a dataset has cached (missing), in memory or in its file.\<close>

fun cached :: "dataset \<Rightarrow> (int \<times> bool) list option" where
  "cached (MemoryDataset limit c) = c"
| "cached (FileDataset limit c) = c"

text \<open>Modelled from the spec: the limit of a dataset's loader (missing).\<close>

fun loader_limit :: "dataset \<Rightarrow> int option" where
  "loader_limit (MemoryDataset limit c) = limit"
| "loader_limit (FileDataset limit c) = limit"

text \<open>Modelled from the spec: a dataset caching the posts it fetched (missing).\<close>

fun store :: "dataset \<Rightarrow> (int \<times> bool) list \<Rightarrow> dataset" where
  "store (MemoryDataset limit c) ps = MemoryDataset limit (Some ps)"
| "store (FileDataset limit c) ps = FileDataset limit (Some ps)"

text \<open>
  Modelled from the spec: the batching of \<^verbatim>\<open>PostsLoader\<close> (missing), which "batches
  cached posts into fixed-size groups"; a batch is "an ordered, fixed-size group of posts
  drawn from a dataset for one offline fit call". The groups are cut off the front in
  order. The specification leaves partial batches open; here a remainder shorter than the
  batch size is not a fixed-size group and makes no batch (with the notebook's batch size
  1 there is never a remainder).
\<close>

function batches :: "nat \<Rightarrow> 'a list \<Rightarrow> 'a list list" where
  "batches n xs = (if n = 0 \<or> length xs < n then [] else take n xs # batches n (drop n xs))"
  by pat_completeness auto
termination
  by (relation "measure (\<lambda>(n, xs). length xs)") auto

declare batches.simps [simp del]

text \<open>
  Modelled from the spec: the arguments of \<^verbatim>\<open>PostsLoader\<close> (missing), as the notebook
  passes them.
\<close>

record PostsLoader =
  batch_size :: nat
  dataset_factory :: dataset_factory

text \<open>
  Modelled from the spec: the arguments of the offline \<^verbatim>\<open>Trainer\<close> (missing), as the
  notebook passes them.
\<close>

record OfflineTrainer =
  stop_condition :: "stop_state \<Rightarrow> bool"
  posts_loader :: PostsLoader

text \<open>
  Modelled from the spec: the arguments of the online \<^verbatim>\<open>Trainer\<close> (missing), as the
  notebook passes them: the stop condition, the number of posts of \<^verbatim>\<open>PostGenerator\<close> and
  the wait interval of \<^verbatim>\<open>PostScheduler\<close> in seconds. Time is not modelled: the scheduler
  appears as one wait per cycle, between generating and publishing.
\<close>

record OnlineTrainer =
  online_stop_condition :: "stop_state \<Rightarrow> bool"
  generator :: nat
  scheduler :: nat

text \<open>
  Modelled from the spec: the module contract, "polymorphic user-supplied unit exposing
  fit/step (offline) or sample/fit/step (online); opaque to the trainers beyond this
  contract". The classes \<^verbatim>\<open>OfflineModule\<close> and \<^verbatim>\<open>OnlineModule\<close> come from
  \<^verbatim>\<open>kilroyshare\<close> (missing); the signatures are those of the notebook's modules.
\<close>

record 'm offline_ops =
  fit :: "'m \<Rightarrow> bool list \<Rightarrow> py_error + 'm"
  step :: "'m \<Rightarrow> py_error + 'm"

text \<open>
  Modelled from the spec: the contract of an online module (\<^verbatim>\<open>OnlineModule\<close> of
  \<^verbatim>\<open>kilroyshare\<close>, missing): \<^verbatim>\<open>sample(n)\<close> consumed to the end, \<^verbatim>\<open>fit(scores)\<close> and
  \<^verbatim>\<open>step()\<close>, with the signatures of the notebook's module.
\<close>

record 'm online_ops =
  sample_posts :: "'m \<Rightarrow> nat \<Rightarrow> 'm \<times> (int \<times> bool) list"
  fit_scores :: "'m \<Rightarrow> (int \<times> real) list \<Rightarrow> py_error + 'm"
  step_scores :: "'m \<Rightarrow> py_error + 'm"

text \<open>
  Modelled from the spec: what a trainer does, as a log of events (the trainers are
  missing): a query of the stop condition, a scrape of the face, a \<^verbatim>\<open>fit\<close> on a batch, a
  \<^verbatim>\<open>step\<close>, a \<^verbatim>\<open>sample\<close> of \<open>n\<close> posts with the pairs it gave, a wait of the scheduler, the
  publication of contents with the identifiers \<^verbatim>\<open>face.post\<close> returned, the collection of
  the scores of identifiers with \<^verbatim>\<open>face.score\<close>, and a \<^verbatim>\<open>fit\<close> on scores.
\<close>

datatype event =
    QueryStop
  | FaceScrap
  | Fit "bool list"
  | Step
  | Sample nat "(int \<times> bool) list"
  | Wait
  | FacePost "bool list" "int list"
  | FaceScore "int list"
  | FitScores "(int \<times> real) list"

text \<open>Modelled from the spec: the state of a running offline trainer (missing).\<close>

record 'm offline_state =
  o_module :: 'm
  o_face :: MyFace
  o_dataset :: dataset
  o_stop :: stop_state
  o_events :: "event list"

text \<open>
  Modelled from the spec: reading the posts of the dataset (missing). The face is scraped
  only when nothing is cached; the posts are then kept.
\<close>

definition load_posts :: "'m offline_state \<Rightarrow> (int \<times> bool) list \<times> 'm offline_state" where
  "load_posts s =
     (case cached (o_dataset s) of
        Some ps \<Rightarrow> (ps, s)
      | None \<Rightarrow>
          (case scrap_all (o_face s) (loader_limit (o_dataset s)) of
             (f, ps) \<Rightarrow> (ps, s\<lparr>o_face := f, o_dataset := store (o_dataset s) ps,
                                o_events := o_events s @ [FaceScrap]\<rparr>)))"

text \<open>
  Modelled from the spec: one epoch of the offline trainer (missing), the "fit on a batch,
  then step the model" cycles over the batches of the dataset. Each cycle is one update.
  The module's \<^verbatim>\<open>step\<close> returns the module the trainer goes on with. An exception of the
  module ends the training.
\<close>

fun fit_then_step :: "'m offline_ops \<Rightarrow> 'm offline_state \<Rightarrow> bool list list \<Rightarrow> py_error + 'm offline_state" where
  "fit_then_step M s [] = Inr s"
| "fit_then_step M s (b # bs) =
     (case fit M (o_module s) b of
        Inl e \<Rightarrow> Inl e
      | Inr m1 \<Rightarrow>
          (case step M m1 of
             Inl e \<Rightarrow> Inl e
           | Inr m2 \<Rightarrow>
               fit_then_step M
                 (s\<lparr>o_module := m2,
                    o_stop := (o_stop s)\<lparr>updates := updates (o_stop s) + 1\<rparr>,
                    o_events := o_events s @ [Fit b, Step]\<rparr>) bs))"

text \<open>
  Modelled from the spec: the loop of the offline trainer (missing), which "drives
  repeated fit on a batch, then step the model cycles until a stop condition is
  satisfied", the stop condition being "queried once per training iteration"; an
  iteration is an epoch here. The loop may run forever for a stop condition that is never
  satisfied, so it takes fuel, one unit per query: \<open>None\<close> is running out of fuel.
\<close>

fun offline_loop :: "nat \<Rightarrow> OfflineTrainer \<Rightarrow> 'm offline_ops \<Rightarrow> 'm offline_state \<Rightarrow> (py_error + 'm offline_state) option" where
  "offline_loop 0 T M s = None"
| "offline_loop (Suc fuel) T M s =
     (let s1 = s\<lparr>o_events := o_events s @ [QueryStop]\<rparr>
      in if stop_condition T (o_stop s) then Some (Inr s1)
         else (case load_posts s1 of
                 (ps, s2) \<Rightarrow>
                   (case fit_then_step M s2 (batches (batch_size (posts_loader T)) (map snd ps)) of
                      Inl e \<Rightarrow> Some (Inl e)
                    | Inr s3 \<Rightarrow>
                        offline_loop fuel T M
                          (s3\<lparr>o_stop := (o_stop s3)\<lparr>epochs := epochs (o_stop s3) + 1\<rparr>\<rparr>))))"

text \<open>
  Modelled from the spec: the start of an offline training (missing): the dataset is
  created by the loader's factory, the counters are zero, nothing has happened.
\<close>

definition offline_start :: "OfflineTrainer \<Rightarrow> int option \<Rightarrow> 'm \<Rightarrow> MyFace \<Rightarrow> 'm offline_state" where
  "offline_start T limit m f =
     \<lparr>o_module = m, o_face = f,
      o_dataset = create (dataset_factory (posts_loader T)) limit,
      o_stop = stop_state_init, o_events = []\<rparr>"

text \<open>
  Modelled from the spec: \<^verbatim>\<open>train(module, face)\<close> of the offline trainer (missing); it
  returns the trained module.
\<close>

definition offline_train :: "nat \<Rightarrow> OfflineTrainer \<Rightarrow> int option \<Rightarrow> 'm offline_ops \<Rightarrow> 'm \<Rightarrow> MyFace \<Rightarrow> (py_error + 'm) option" where
  "offline_train fuel T limit M m f =
     (case offline_loop fuel T M (offline_start T limit m f) of
        None \<Rightarrow> None
      | Some (Inl e) \<Rightarrow> Some (Inl e)
      | Some (Inr s) \<Rightarrow> Some (Inr (o_module s)))"

text \<open>Modelled from the spec: the state of a running online trainer (missing).\<close>

record 'm online_state =
  n_module :: 'm
  n_face :: MyFace
  n_stop :: stop_state
  n_events :: "event list"

text \<open>
  Modelled from the spec: publishing the generated posts with \<^verbatim>\<open>face.post\<close> (the trainer
  is missing); the identifiers come back in the order of the posts.
\<close>

fun publish :: "MyFace \<Rightarrow> bool list \<Rightarrow> MyFace \<times> int list" where
  "publish f [] = (f, [])"
| "publish f (x # xs) =
     (case post f x of
        (f1, post_id) \<Rightarrow> (case publish f1 xs of (f2, ids) \<Rightarrow> (f2, post_id # ids)))"

text \<open>
  Modelled from the spec: collecting the scores of the published posts with
  \<^verbatim>\<open>face.score\<close> (the trainer is missing).
\<close>

fun collect :: "MyFace \<Rightarrow> int list \<Rightarrow> py_error + int list" where
  "collect f [] = Inr []"
| "collect f (post_id # ids) =
     (case score f post_id of
        Inl e \<Rightarrow> Inl e
      | Inr v \<Rightarrow> (case collect f ids of Inl e \<Rightarrow> Inl e | Inr vs \<Rightarrow> Inr (v # vs)))"

text \<open>
  Modelled from the spec: one cycle of the online trainer (missing): "generate candidate
  posts, publish them, collect scores, fit on scores, step the model", "gated by a
  scheduler controlling pacing". The scores go to \<^verbatim>\<open>fit\<close> under the identifiers the
  module gave its samples, which is what the notebook's \<^verbatim>\<open>fit\<close> looks up. Each cycle is
  one update.
\<close>

definition online_cycle :: "OnlineTrainer \<Rightarrow> 'm online_ops \<Rightarrow> 'm online_state \<Rightarrow> py_error + 'm online_state" where
  "online_cycle T M s =
     (case sample_posts M (n_module s) (generator T) of
        (m1, items) \<Rightarrow>
          (case publish (n_face s) (map snd items) of
             (f1, ids) \<Rightarrow>
               (case collect f1 ids of
                  Inl e \<Rightarrow> Inl e
                | Inr vs \<Rightarrow>
                    (let scores = zip (map fst items) (map real_of_int vs)
                     in case fit_scores M m1 scores of
                          Inl e \<Rightarrow> Inl e
                        | Inr m2 \<Rightarrow>
                            (case step_scores M m2 of
                               Inl e \<Rightarrow> Inl e
                             | Inr m3 \<Rightarrow>
                                 Inr (s\<lparr>n_module := m3, n_face := f1,
                                        n_stop := (n_stop s)\<lparr>updates := updates (n_stop s) + 1\<rparr>,
                                        n_events := n_events s @
                                          [Sample (generator T) items, Wait,
                                           FacePost (map snd items) ids, FaceScore ids,
                                           FitScores scores, Step]\<rparr>))))))"

text \<open>
  Modelled from the spec: the loop of the online trainer (missing): the cycles repeat
  "until a stop condition is satisfied", the stop condition being "queried once per
  training iteration". Fuel as for the offline loop, one unit per query.
\<close>

fun online_loop :: "nat \<Rightarrow> OnlineTrainer \<Rightarrow> 'm online_ops \<Rightarrow> 'm online_state \<Rightarrow> (py_error + 'm online_state) option" where
  "online_loop 0 T M s = None"
| "online_loop (Suc fuel) T M s =
     (let s1 = s\<lparr>n_events := n_events s @ [QueryStop]\<rparr>
      in if online_stop_condition T (n_stop s) then Some (Inr s1)
         else (case online_cycle T M s1 of
                 Inl e \<Rightarrow> Some (Inl e)
               | Inr s2 \<Rightarrow> online_loop fuel T M s2))"

text \<open>Modelled from the spec: the start of an online training (missing).\<close>

definition online_start :: "'m \<Rightarrow> MyFace \<Rightarrow> 'm online_state" where
  "online_start m f = \<lparr>n_module = m, n_face = f, n_stop = stop_state_init, n_events = []\<rparr>"

text \<open>
  Modelled from the spec: \<^verbatim>\<open>train(module, face)\<close> of the online trainer (missing); it
  returns the trained module.
\<close>

definition online_train :: "nat \<Rightarrow> OnlineTrainer \<Rightarrow> 'm online_ops \<Rightarrow> 'm \<Rightarrow> MyFace \<Rightarrow> (py_error + 'm) option" where
  "online_train fuel T M m f =
     (case online_loop fuel T M (online_start m f) of
        None \<Rightarrow> None
      | Some (Inl e) \<Rightarrow> Some (Inl e)
      | Some (Inr s) \<Rightarrow> Some (Inr (n_module s)))"

text \<open>
  The shape of the trainers' logs. \<open>epoch_log\<close>: the events of one offline epoch,
  given whether the face was scraped in it and the batches it went through.
  \<open>cycle_log\<close>: the events of one online cycle that generated \<open>n\<close> posts, given the
  sampled pairs, the identifiers the face returned and the scores handed to \<^verbatim>\<open>fit\<close>.
\<close>

definition epoch_log :: "bool \<times> bool list list \<Rightarrow> event list" where
  "epoch_log e =
     QueryStop # (if fst e then [FaceScrap] else []) @ concat (map (\<lambda>b. [Fit b, Step]) (snd e))"

definition cycle_log :: "nat \<Rightarrow> (int \<times> bool) list \<times> int list \<times> (int \<times> real) list \<Rightarrow> event list" where
  "cycle_log n c =
     (case c of (items, ids, scores) \<Rightarrow>
        [QueryStop, Sample n items, Wait, FacePost (map snd items) ids, FaceScore ids,
         FitScores scores, Step])"

text \<open>
  Replaying on a module the calls a log records, and nothing else: every \<open>Fit\<close>,
  \<open>Step\<close>, \<open>Sample\<close> and \<open>FitScores\<close> event is the module operation of that name, every
  other event leaves the module alone.
\<close>

fun replay_offline :: "'m offline_ops \<Rightarrow> 'm \<Rightarrow> event list \<Rightarrow> py_error + 'm" where
  "replay_offline M m [] = Inr m"
| "replay_offline M m (Fit b # es) =
     (case fit M m b of Inl e \<Rightarrow> Inl e | Inr m' \<Rightarrow> replay_offline M m' es)"
| "replay_offline M m (Step # es) =
     (case step M m of Inl e \<Rightarrow> Inl e | Inr m' \<Rightarrow> replay_offline M m' es)"
| "replay_offline M m (e # es) = replay_offline M m es"

fun replay_online :: "'m online_ops \<Rightarrow> 'm \<Rightarrow> event list \<Rightarrow> py_error + 'm" where
  "replay_online M m [] = Inr m"
| "replay_online M m (Sample n items # es) = replay_online M (fst (sample_posts M m n)) es"
| "replay_online M m (FitScores scores # es) =
     (case fit_scores M m scores of Inl e \<Rightarrow> Inl e | Inr m' \<Rightarrow> replay_online M m' es)"
| "replay_online M m (Step # es) =
     (case step_scores M m of Inl e \<Rightarrow> Inl e | Inr m' \<Rightarrow> replay_online M m' es)"
| "replay_online M m (e # es) = replay_online M m es"

section \<open>The notebook's trainers and modules\<close>

text \<open>
  The trainers the notebook constructs:
  \<^verbatim>\<open>OfflineTrainer(stop_condition=MaxEpochs(100), posts_loader=PostsLoader(batch_size=1, dataset_factory=MemoryCachingDatasetFactory()))\<close>
  and
  \<^verbatim>\<open>OnlineTrainer(stop_condition=MaxUpdates(100), generator=PostGenerator(10), scheduler=PostScheduler(timedelta(seconds=0)))\<close>.
\<close>

definition offline_trainer :: OfflineTrainer where
  "offline_trainer =
     \<lparr>stop_condition = MaxEpochs 100,
      posts_loader = \<lparr>batch_size = 1, dataset_factory = MemoryCachingDatasetFactory\<rparr>\<rparr>"

definition online_trainer :: OnlineTrainer where
  "online_trainer = \<lparr>online_stop_condition = MaxUpdates 100, generator = 10, scheduler = 0\<rparr>"

text \<open>
  The notebook's offline module behind the module contract: its state is the shared model
  with the module's own attributes.
\<close>

definition notebook_offline_ops :: "(Model \<times> MyOfflineModule) offline_ops" where
  "notebook_offline_ops = \<lparr>fit = offline_fit, step = offline_step\<rparr>"

text \<open>
  The notebook's online module behind the module contract. The outcomes of
  \<^verbatim>\<open>random.choices\<close> are read off a tape, an arbitrary sequence of booleans, at a position
  that \<^verbatim>\<open>sample(n)\<close> advances by \<open>n\<close>.
\<close>

record online_module_state =
  om_objects :: "Model \<times> MyOnlineModule"
  om_tape :: "nat \<Rightarrow> bool"
  om_pos :: nat

definition notebook_online_ops :: "online_module_state online_ops" where
  "notebook_online_ops =
     \<lparr>sample_posts = (\<lambda>w n.
        case sample (om_objects w) (map (om_tape w) [om_pos w..<om_pos w + n]) of
          (s, items) \<Rightarrow> (w\<lparr>om_objects := s, om_pos := om_pos w + n\<rparr>, items)),
      fit_scores = (\<lambda>w scores.
        case online_fit (om_objects w) scores of
          Inl e \<Rightarrow> Inl e
        | Inr s \<Rightarrow> Inr (w\<lparr>om_objects := s\<rparr>)),
      step_scores = (\<lambda>w.
        case online_step (om_objects w) of
          Inl e \<Rightarrow> Inl e
        | Inr s \<Rightarrow> Inr (w\<lparr>om_objects := s\<rparr>))\<rparr>"

section \<open>Properties of step and of the setter\<close>

lemma set_p_range: "0 \<le> get_p (set_p m v) \<and> get_p (set_p m v) \<le> 1"
  by (simp add: get_p_def set_p_def)

lemma offline_step_Inl: "offline_step (m, om) = Inl e \<longleftrightarrow> off_deltas om = [] \<and> e = ZeroDivisionError"
  by (auto simp: offline_step_def mean_def split: sum.splits)

lemma online_step_Inl: "online_step (m, om) = Inl e \<longleftrightarrow> on_deltas om = [] \<and> e = ZeroDivisionError"
  by (auto simp: online_step_def mean_def split: sum.splits)

lemma sample_loop_deltas:
  "on_deltas (fst (sample_loop om drawn)) = on_deltas om \<and> on_alpha (fst (sample_loop om drawn)) = on_alpha om"
  by (induction drawn arbitrary: om) (simp_all add: Let_def case_prod_beta)

lemma call_deltas_length:
  assumes that: "call s c = Inr s'"
  shows "length (off_deltas (offline_module s')) = offline_fits_since_step (length (off_deltas (offline_module s))) [c]
   \<and> length (on_deltas (online_module s')) = online_fits_since_step (length (on_deltas (online_module s))) [c]"
proof (cases c)
  case (OfflineFit posts)
  then show ?thesis using that
    by (auto simp: offline_fit_def Let_def split: sum.splits if_splits)
next
  case OfflineStep
  then show ?thesis using that
    by (auto simp: offline_step_def split: sum.splits)
next
  case (OnlineSample drawn)
  then show ?thesis using that sample_loop_deltas [of "online_module s" drawn]
    by (auto simp: sample_def case_prod_beta)
next
  case (OnlineFit scores)
  then show ?thesis using that
    by (auto simp: online_fit_def Let_def split: sum.splits if_splits)
next
  case OnlineStep
  then show ?thesis using that
    by (auto simp: online_step_def split: sum.splits)
qed

lemma offline_fits_since_step_Cons:
  "offline_fits_since_step k (c # cs) = offline_fits_since_step (offline_fits_since_step k [c]) cs"
  by (cases c) simp_all

lemma online_fits_since_step_Cons:
  "online_fits_since_step k (c # cs) = online_fits_since_step (online_fits_since_step k [c]) cs"
  by (cases c) simp_all

lemma calls_deltas_length:
  "calls s cs = Inr s' \<Longrightarrow>
     length (off_deltas (offline_module s')) = offline_fits_since_step (length (off_deltas (offline_module s))) cs
   \<and> length (on_deltas (online_module s')) = online_fits_since_step (length (on_deltas (online_module s))) cs"
proof (induction cs arbitrary: s)
  case Nil
  then show ?case by simp
next
  case (Cons c cs)
  from Cons.prems obtain s1 where c1: "call s c = Inr s1" and rest: "calls s1 cs = Inr s'"
    by (auto split: sum.splits)
  from call_deltas_length [OF c1] Cons.IH [OF rest] show ?case
    by (metis offline_fits_since_step_Cons online_fits_since_step_Cons)
qed

text \<open>
  C10. \<^verbatim>\<open>step\<close> of \<^verbatim>\<open>MyOfflineModule\<close> or \<^verbatim>\<open>MyOnlineModule\<close> raises
  \<^verbatim>\<open>ZeroDivisionError\<close> exactly when no \<^verbatim>\<open>fit\<close> of that module has happened since its
  previous \<^verbatim>\<open>step\<close> (or since construction), that is, when its \<^verbatim>\<open>deltas\<close> list is
  empty. Otherwise \<^verbatim>\<open>step\<close> succeeds: \<^verbatim>\<open>mean\<close> returns a value, the model takes the
  clamped update, and the module that comes back is the same module with \<^verbatim>\<open>deltas\<close>
  reset to the empty list. The history is any sequence of calls that ran without an
  exception, on modules that start with empty \<^verbatim>\<open>deltas\<close> as the constructors leave them.
\<close>

theorem step_raises_iff_no_fit_since_step:
  assumes "off_deltas (offline_module s0) = []" and "on_deltas (online_module s0) = []"
    and "calls s0 cs = Inr s"
  shows "(call s OfflineStep = Inl ZeroDivisionError \<longleftrightarrow> offline_fits_since_step 0 cs = 0)
       \<and> (call s OnlineStep = Inl ZeroDivisionError \<longleftrightarrow> online_fits_since_step 0 cs = 0)
       \<and> (offline_fits_since_step 0 cs \<noteq> 0 \<longrightarrow>
            (\<exists>mu. mean (off_deltas (offline_module s)) = Inr mu \<and> call s OfflineStep =
                    Inr (s\<lparr>model := set_p (model s) (get_p (model s) + off_alpha (offline_module s) * mu),
                           offline_module := (offline_module s)\<lparr>off_deltas := []\<rparr>\<rparr>)))
       \<and> (online_fits_since_step 0 cs \<noteq> 0 \<longrightarrow>
            (\<exists>mu. mean (on_deltas (online_module s)) = Inr mu \<and> call s OnlineStep =
                    Inr (s\<lparr>model := set_p (model s) (get_p (model s) + on_alpha (online_module s) * mu),
                           online_module := (online_module s)\<lparr>on_deltas := []\<rparr>\<rparr>)))"
proof -
  from calls_deltas_length [OF assms(3)] assms(1,2)
  have off: "length (off_deltas (offline_module s)) = offline_fits_since_step 0 cs"
    and on: "length (on_deltas (online_module s)) = online_fits_since_step 0 cs"
    by simp_all
  have a: "call s OfflineStep = Inl ZeroDivisionError \<longleftrightarrow> off_deltas (offline_module s) = []"
    using offline_step_Inl [of "model s" "offline_module s" ZeroDivisionError]
    by (auto split: sum.splits)
  have b: "call s OnlineStep = Inl ZeroDivisionError \<longleftrightarrow> on_deltas (online_module s) = []"
    using online_step_Inl [of "model s" "online_module s" ZeroDivisionError]
    by (auto split: sum.splits)
  have c: "\<exists>mu. mean (off_deltas (offline_module s)) = Inr mu \<and> call s OfflineStep =
                    Inr (s\<lparr>model := set_p (model s) (get_p (model s) + off_alpha (offline_module s) * mu),
                           offline_module := (offline_module s)\<lparr>off_deltas := []\<rparr>\<rparr>)"
    if "off_deltas (offline_module s) \<noteq> []"
    using that by (simp add: offline_step_def mean_def)
  have d: "\<exists>mu. mean (on_deltas (online_module s)) = Inr mu \<and> call s OnlineStep =
                    Inr (s\<lparr>model := set_p (model s) (get_p (model s) + on_alpha (online_module s) * mu),
                           online_module := (online_module s)\<lparr>on_deltas := []\<rparr>\<rparr>)"
    if "on_deltas (online_module s) \<noteq> []"
    using that by (simp add: online_step_def mean_def)
  from a off have a': "call s OfflineStep = Inl ZeroDivisionError \<longleftrightarrow> offline_fits_since_step 0 cs = 0"
    by (metis length_0_conv)
  from b on have b': "call s OnlineStep = Inl ZeroDivisionError \<longleftrightarrow> online_fits_since_step 0 cs = 0"
    by (metis length_0_conv)
  from c off have c': "offline_fits_since_step 0 cs \<noteq> 0 \<longrightarrow>
            (\<exists>mu. mean (off_deltas (offline_module s)) = Inr mu \<and> call s OfflineStep =
                    Inr (s\<lparr>model := set_p (model s) (get_p (model s) + off_alpha (offline_module s) * mu),
                           offline_module := (offline_module s)\<lparr>off_deltas := []\<rparr>\<rparr>))"
    by (metis list.size(3))
  from d on have d': "online_fits_since_step 0 cs \<noteq> 0 \<longrightarrow>
            (\<exists>mu. mean (on_deltas (online_module s)) = Inr mu \<and> call s OnlineStep =
                    Inr (s\<lparr>model := set_p (model s) (get_p (model s) + on_alpha (online_module s) * mu),
                           online_module := (online_module s)\<lparr>on_deltas := []\<rparr>\<rparr>))"
    by (metis list.size(3))
  from a' b' c' d' show ?thesis by blast
qed

text \<open>
  At the notebook's objects: after an offline \<^verbatim>\<open>fit\<close> and one online
  sample/fit/step round, the online module has no \<^verbatim>\<open>fit\<close> since its \<^verbatim>\<open>step\<close> and
  raises, the offline module has one and steps. After an offline fit/step round and an
  online sample and \<^verbatim>\<open>fit\<close> it is the other way round.
\<close>

theorem step_raises_iff_no_fit_since_step_witness:
  "calls notebook_init [OfflineFit [True], OnlineSample [True], OnlineFit [(0, 1)], OnlineStep] =
     Inr (notebook_init\<lparr>model := \<lparr>priv_p = 0.55\<rparr>,
            offline_module := (offline_module notebook_init)\<lparr>off_deltas := [0.5]\<rparr>,
            online_module := (online_module notebook_init)\<lparr>on_posts := [0 \<mapsto> True], on_i := 1\<rparr>\<rparr>)
   \<and> online_fits_since_step 0 [OfflineFit [True], OnlineSample [True], OnlineFit [(0, 1)], OnlineStep] = 0
   \<and> offline_fits_since_step 0 [OfflineFit [True], OnlineSample [True], OnlineFit [(0, 1)], OnlineStep] = 1
   \<and> call (notebook_init\<lparr>model := \<lparr>priv_p = 0.55\<rparr>,
            offline_module := (offline_module notebook_init)\<lparr>off_deltas := [0.5]\<rparr>,
            online_module := (online_module notebook_init)\<lparr>on_posts := [0 \<mapsto> True], on_i := 1\<rparr>\<rparr>) OnlineStep
       = Inl ZeroDivisionError
   \<and> call (notebook_init\<lparr>model := \<lparr>priv_p = 0.55\<rparr>,
            offline_module := (offline_module notebook_init)\<lparr>off_deltas := [0.5]\<rparr>,
            online_module := (online_module notebook_init)\<lparr>on_posts := [0 \<mapsto> True], on_i := 1\<rparr>\<rparr>) OfflineStep
       \<noteq> Inl ZeroDivisionError
   \<and> online_fits_since_step 0 [OfflineFit [True], OfflineStep, OnlineSample [True], OnlineFit [(0, 1)]] = 1
   \<and> offline_fits_since_step 0 [OfflineFit [True], OfflineStep, OnlineSample [True], OnlineFit [(0, 1)]] = 0
   \<and> (case calls notebook_init [OfflineFit [True], OfflineStep, OnlineSample [True], OnlineFit [(0, 1)]] of
         Inl e \<Rightarrow> False
       | Inr s \<Rightarrow> call s OfflineStep = Inl ZeroDivisionError
                   \<and> call s OnlineStep \<noteq> Inl ZeroDivisionError)"
proof -
  have run: "calls notebook_init [OfflineFit [True], OnlineSample [True], OnlineFit [(0, 1)], OnlineStep] =
     Inr (notebook_init\<lparr>model := \<lparr>priv_p = 0.55\<rparr>,
            offline_module := (offline_module notebook_init)\<lparr>off_deltas := [0.5]\<rparr>,
            online_module := (online_module notebook_init)\<lparr>on_posts := [0 \<mapsto> True], on_i := 1\<rparr>\<rparr>)"
    by (simp add: notebook_init_def Model_default_def Model_init_def MyOfflineModule_init_def
        MyOnlineModule_init_def offline_fit_def online_fit_def online_step_def sample_def mean_def
        get_p_def set_p_def int_of_bool_def Let_def)
  have e1: "off_deltas (offline_module notebook_init) = []"
    and e2: "on_deltas (online_module notebook_init) = []"
    by (simp_all add: notebook_init_def MyOfflineModule_init_def MyOnlineModule_init_def)
  obtain s where run2: "calls notebook_init [OfflineFit [True], OfflineStep, OnlineSample [True], OnlineFit [(0, 1)]] = Inr s"
    by (simp add: notebook_init_def Model_default_def Model_init_def MyOfflineModule_init_def
        MyOnlineModule_init_def offline_fit_def offline_step_def online_fit_def sample_def mean_def
        get_p_def set_p_def int_of_bool_def Let_def)
  from step_raises_iff_no_fit_since_step [OF e1 e2 run2]
  have second: "call s OfflineStep = Inl ZeroDivisionError
      \<and> call s OnlineStep \<noteq> Inl ZeroDivisionError"
    by simp
  from step_raises_iff_no_fit_since_step [OF e1 e2 run] run
  have first: "call (notebook_init\<lparr>model := \<lparr>priv_p = 0.55\<rparr>,
            offline_module := (offline_module notebook_init)\<lparr>off_deltas := [0.5]\<rparr>,
            online_module := (online_module notebook_init)\<lparr>on_posts := [0 \<mapsto> True], on_i := 1\<rparr>\<rparr>) OnlineStep
       = Inl ZeroDivisionError
   \<and> call (notebook_init\<lparr>model := \<lparr>priv_p = 0.55\<rparr>,
            offline_module := (offline_module notebook_init)\<lparr>off_deltas := [0.5]\<rparr>,
            online_module := (online_module notebook_init)\<lparr>on_posts := [0 \<mapsto> True], on_i := 1\<rparr>\<rparr>) OfflineStep
       \<noteq> Inl ZeroDivisionError"
    by simp
  from first second run run2 show ?thesis by simp
qed

section \<open>The parameter stays in the unit interval\<close>

lemma call_p_range:
  assumes "call s c = Inr s'" and "0 \<le> get_p (model s) \<and> get_p (model s) \<le> 1"
  shows "0 \<le> get_p (model s') \<and> get_p (model s') \<le> 1"
proof (cases c)
  case (OfflineFit posts)
  then show ?thesis using assms
    by (auto simp: offline_fit_def Let_def split: sum.splits if_splits)
next
  case OfflineStep
  then show ?thesis using assms set_p_range
    by (auto simp: offline_step_def split: sum.splits)
next
  case (OnlineSample drawn)
  then show ?thesis using assms
    by (auto simp: sample_def case_prod_beta)
next
  case (OnlineFit scores)
  then show ?thesis using assms
    by (auto simp: online_fit_def Let_def split: sum.splits if_splits)
next
  case OnlineStep
  then show ?thesis using assms set_p_range
    by (auto simp: online_step_def split: sum.splits)
qed

lemma calls_p_range:
  "calls s cs = Inr s' \<Longrightarrow> 0 \<le> get_p (model s) \<and> get_p (model s) \<le> 1 \<Longrightarrow>
   0 \<le> get_p (model s') \<and> get_p (model s') \<le> 1"
proof (induction cs arbitrary: s)
  case Nil
  then show ?case by simp
next
  case (Cons c cs)
  from Cons.prems(1) obtain s1 where c1: "call s c = Inr s1" and rest: "calls s1 cs = Inr s'"
    by (auto split: sum.splits)
  from call_p_range [OF c1 Cons.prems(2)] Cons.IH [OF rest] show ?case
    by blast
qed

lemma notebook_init_p: "get_p (model notebook_init) = 1 / 2"
  by (simp add: notebook_init_def Model_default_def Model_init_def get_p_def)

lemma setter_value_Fin: "setter_value (Fin v) = Fin (max (min v 1) 0)"
  by (simp add: setter_value_def py_min_def py_max_def max_def min_def)

lemma setter_value_in_unit: "v \<noteq> NaN \<Longrightarrow> in_unit (setter_value v)"
  by (cases v) (auto simp: setter_value_def py_min_def py_max_def in_unit_def float_le_def)

text \<open>
  C9 as stated fails. The setter does not bring every assigned value into \<open>[0, 1]\<close>:
  \<^verbatim>\<open>max(min(nan, 1), 0)\<close> is NaN, which is stored, and \<^verbatim>\<open>0 <= nan <= 1\<close> is false. And the
  invariant does not hold from every construction: the constructor stores its argument as
  it is, so \<^verbatim>\<open>Model(2).p\<close> is 2.
\<close>

theorem p_leaves_unit_interval_counterexample:
  "\<not> in_unit (setter_value NaN)
   \<and> \<not> (0 \<le> get_p (Model_init 2) \<and> get_p (Model_init 2) \<le> 1)"
  by (simp add: setter_value_def py_min_def py_max_def in_unit_def float_le_def
      Model_init_def get_p_def)

text \<open>
  C9, amended. The setter stores \<^verbatim>\<open>max(min(value, 1), 0)\<close>, so for every value assigned
  that is not NaN, the infinities included, the stored parameter is between 0 and 1; on a
  number it is the clamped number, and so it is after every \<^verbatim>\<open>step\<close> of either module.
  The constructor stores its argument unclamped. A model whose parameter is in
  \<open>[0, 1]\<close>, as the notebook's \<^verbatim>\<open>Model()\<close> with 0.5 is from its construction, keeps it
  in \<open>[0, 1]\<close> over any sequence of calls on the two modules that ran without an
  exception (the arithmetic of \<^verbatim>\<open>step\<close> being on numbers).
\<close>

theorem p_stays_in_unit_interval:
  "(v \<noteq> NaN \<longrightarrow> in_unit (setter_value v))
   \<and> setter_value (Fin x) = Fin (get_p (set_p m x))
   \<and> 0 \<le> get_p (set_p m x) \<and> get_p (set_p m x) \<le> 1
   \<and> (\<forall>m' om'. offline_step (m, om) = Inr (m', om') \<longrightarrow> 0 \<le> get_p m' \<and> get_p m' \<le> 1)
   \<and> (\<forall>m' onm'. online_step (m, onm) = Inr (m', onm') \<longrightarrow> 0 \<le> get_p m' \<and> get_p m' \<le> 1)
   \<and> get_p (Model_init p0) = p0
   \<and> 0 \<le> get_p (model notebook_init) \<and> get_p (model notebook_init) \<le> 1
   \<and> (\<forall>s. 0 \<le> get_p (model s0) \<and> get_p (model s0) \<le> 1 \<and> calls s0 cs = Inr s \<longrightarrow>
         0 \<le> get_p (model s) \<and> get_p (model s) \<le> 1)"
proof -
  have a: "0 \<le> get_p (set_p m x) \<and> get_p (set_p m x) \<le> 1"
    by (rule set_p_range)
  have a0: "v \<noteq> NaN \<longrightarrow> in_unit (setter_value v)"
    by (simp add: setter_value_in_unit)
  have a1: "setter_value (Fin x) = Fin (get_p (set_p m x))"
    by (simp add: setter_value_Fin get_p_def set_p_def)
  have b: "\<forall>m' om'. offline_step (m, om) = Inr (m', om') \<longrightarrow> 0 \<le> get_p m' \<and> get_p m' \<le> 1"
    using set_p_range by (auto simp: offline_step_def split: sum.splits)
  have c: "\<forall>m' onm'. online_step (m, onm) = Inr (m', onm') \<longrightarrow> 0 \<le> get_p m' \<and> get_p m' \<le> 1"
    using set_p_range by (auto simp: online_step_def split: sum.splits)
  have d: "0 \<le> get_p (model notebook_init) \<and> get_p (model notebook_init) \<le> 1"
    by (simp add: notebook_init_p)
  have d0: "get_p (Model_init p0) = p0"
    by (simp add: Model_init_def get_p_def)
  have e: "\<forall>s. 0 \<le> get_p (model s0) \<and> get_p (model s0) \<le> 1 \<and> calls s0 cs = Inr s \<longrightarrow>
         0 \<le> get_p (model s) \<and> get_p (model s) \<le> 1"
    using calls_p_range by blast
  from a a0 a1 b c d d0 e show ?thesis by blast
qed

text \<open>
  The setter brings both infinities and 7 into range; a step over a delta of 5 ends at 1
  and one over a delta of -7 at 0; and an online round with a score of 100 leaves the
  notebook's parameter at 1.
\<close>

theorem p_stays_in_unit_interval_witness:
  "in_unit (setter_value PosInf) \<and> setter_value PosInf = Fin 1 \<and> setter_value NegInf = Fin 0
   \<and> setter_value (Fin 7) = Fin 1
   \<and> get_p (set_p Model_default 7) = 1 \<and> get_p (set_p Model_default (- 3)) = 0
   \<and> offline_step (Model_default, \<lparr>off_deltas = [5], off_alpha = 1\<rparr>)
        = Inr (\<lparr>priv_p = 1\<rparr>, \<lparr>off_deltas = [], off_alpha = 1\<rparr>)
   \<and> online_step (Model_default, \<lparr>on_deltas = [- 7], on_alpha = 1, on_posts = Map.empty, on_i = 0\<rparr>)
        = Inr (\<lparr>priv_p = 0\<rparr>, \<lparr>on_deltas = [], on_alpha = 1, on_posts = Map.empty, on_i = 0\<rparr>)
   \<and> calls notebook_init [OnlineSample [True], OnlineFit [(0, 100)], OnlineStep]
        = Inr (notebook_init\<lparr>model := \<lparr>priv_p = 1\<rparr>,
            online_module := (online_module notebook_init)\<lparr>on_posts := [0 \<mapsto> True], on_i := 1\<rparr>\<rparr>)
   \<and> 0 \<le> get_p (model (notebook_init\<lparr>model := \<lparr>priv_p = 1\<rparr>,
            online_module := (online_module notebook_init)\<lparr>on_posts := [0 \<mapsto> True], on_i := 1\<rparr>\<rparr>))
   \<and> get_p (model (notebook_init\<lparr>model := \<lparr>priv_p = 1\<rparr>,
            online_module := (online_module notebook_init)\<lparr>on_posts := [0 \<mapsto> True], on_i := 1\<rparr>\<rparr>)) \<le> 1"
proof -
  have run: "calls notebook_init [OnlineSample [True], OnlineFit [(0, 100)], OnlineStep]
        = Inr (notebook_init\<lparr>model := \<lparr>priv_p = 1\<rparr>,
            online_module := (online_module notebook_init)\<lparr>on_posts := [0 \<mapsto> True], on_i := 1\<rparr>\<rparr>)"
    by (simp add: notebook_init_def Model_default_def Model_init_def MyOfflineModule_init_def
        MyOnlineModule_init_def online_fit_def online_step_def sample_def mean_def
        get_p_def set_p_def int_of_bool_def Let_def)
  have vals: "get_p (set_p Model_default 7) = 1 \<and> get_p (set_p Model_default (- 3)) = 0"
    by (simp add: get_p_def set_p_def)
  have fl: "setter_value PosInf = Fin 1 \<and> setter_value NegInf = Fin 0 \<and> setter_value (Fin 7) = Fin 1"
    by (simp add: setter_value_def py_min_def py_max_def)
  have steps: "offline_step (Model_default, \<lparr>off_deltas = [5], off_alpha = 1\<rparr>)
        = Inr (\<lparr>priv_p = 1\<rparr>, \<lparr>off_deltas = [], off_alpha = 1\<rparr>)
   \<and> online_step (Model_default, \<lparr>on_deltas = [- 7], on_alpha = 1, on_posts = Map.empty, on_i = 0\<rparr>)
        = Inr (\<lparr>priv_p = 0\<rparr>, \<lparr>on_deltas = [], on_alpha = 1, on_posts = Map.empty, on_i = 0\<rparr>)"
    by (simp add: offline_step_def online_step_def mean_def Model_default_def Model_init_def
        get_p_def set_p_def)
  note th = p_stays_in_unit_interval [of PosInf 7 Model_default "\<lparr>off_deltas = [5], off_alpha = 1\<rparr>"
      "\<lparr>on_deltas = [- 7], on_alpha = 1, on_posts = Map.empty, on_i = 0\<rparr>" "1 / 2"
      notebook_init "[OnlineSample [True], OnlineFit [(0, 100)], OnlineStep]"]
  from th have iu: "in_unit (setter_value PosInf)" by simp
  from th run have rng: "0 \<le> get_p (model (notebook_init\<lparr>model := \<lparr>priv_p = 1\<rparr>,
            online_module := (online_module notebook_init)\<lparr>on_posts := [0 \<mapsto> True], on_i := 1\<rparr>\<rparr>))
   \<and> get_p (model (notebook_init\<lparr>model := \<lparr>priv_p = 1\<rparr>,
            online_module := (online_module notebook_init)\<lparr>on_posts := [0 \<mapsto> True], on_i := 1\<rparr>\<rparr>)) \<le> 1"
    by simp
  from iu rng run vals fl steps show ?thesis by simp
qed

section \<open>Online training never decreases the parameter\<close>

lemma contribution:
  "(real_of_int (int_of_bool x) - p) * real_of_int (int_of_bool x * 2 - 1) = (if x then 1 - p else p)"
  by (simp add: int_of_bool_def)

lemma scored_by_content_update: "scored_by_content al \<Longrightarrow> sc = real_of_int (int_of_bool x * 2 - 1) \<Longrightarrow> scored_by_content (AList.update x sc al)"
  by (induction al) (auto simp: scored_by_content_def)

lemma by_content_scored_by_content:
  "by_content om scores acc = Inr al \<Longrightarrow> demonstrated_scores om scores \<Longrightarrow> scored_by_content acc \<Longrightarrow> scored_by_content al"
proof (induction om scores acc rule: by_content.induct)
  case (1 om acc)
  then show ?case by simp
next
  case (2 om post_id sc rest acc)
  from "2.prems"(1) obtain x where x: "on_posts om post_id = Some x"
    and rest: "by_content om rest (AList.update x sc acc) = Inr al"
    by (auto split: option.splits)
  from "2.prems"(2) x have sc: "sc = real_of_int (int_of_bool x * 2 - 1)"
    and dm: "demonstrated_scores om rest"
    by (simp_all add: demonstrated_scores_def)
  from "2.IH" [OF x rest dm scored_by_content_update [OF "2.prems"(3) sc]] show ?case .
qed

lemma scored_by_content_sum_nonneg:
  assumes "scored_by_content al" and "0 \<le> p" and "p \<le> 1"
  shows "0 \<le> sum_list (map (\<lambda>(x, sc). (real_of_int (int_of_bool x) - p) * sc) al)"
proof (rule sum_list_nonneg)
  fix t assume "t \<in> set (map (\<lambda>(x, sc). (real_of_int (int_of_bool x) - p) * sc) al)"
  then obtain x sc where m: "(x, sc) \<in> set al" and t: "t = (real_of_int (int_of_bool x) - p) * sc"
    by auto
  from m assms(1) have "sc = real_of_int (int_of_bool x * 2 - 1)"
    by (auto simp: scored_by_content_def list_all_iff)
  with t contribution [of x p] have "t = (if x then 1 - p else p)"
    by metis
  with assms(2,3) show "0 \<le> t" by simp
qed

lemma online_fit_nonneg:
  assumes "online_fit (m, om) scores = Inr (m', om')" and "demonstrated_scores om scores"
    and "0 \<le> get_p m" and "get_p m \<le> 1"
  shows "m' = m \<and> (\<exists>d. 0 \<le> d \<and> om' = om\<lparr>on_deltas := on_deltas om @ [d]\<rparr>)"
proof -
  from assms(1) obtain al where al: "by_content om scores [] = Inr al" and ne: "al \<noteq> []"
    and res: "m' = m" "om' = om\<lparr>on_deltas := on_deltas om @
        [sum_list (map (\<lambda>(x, sc). (real_of_int (int_of_bool x) - get_p m) * sc) al) / real (length al)]\<rparr>"
    by (auto simp: online_fit_def Let_def split: sum.splits if_splits)
  have "scored_by_content []" by (simp add: scored_by_content_def)
  from by_content_scored_by_content [OF al assms(2) this] have "scored_by_content al" .
  from scored_by_content_sum_nonneg [OF this assms(3,4)]
  have "0 \<le> sum_list (map (\<lambda>(x, sc). (real_of_int (int_of_bool x) - get_p m) * sc) al) / real (length al)"
    by simp
  with res show ?thesis by blast
qed

lemma set_p_mono:
  assumes "0 \<le> x" and "get_p m \<le> 1" and "0 \<le> get_p m"
  shows "get_p m \<le> get_p (set_p m (get_p m + x))"
  using assms by (simp add: get_p_def set_p_def)

lemma online_step_mono:
  assumes "online_step (m, om) = Inr (m', om')" and "nonneg (on_deltas om)" and "0 \<le> on_alpha om"
    and "0 \<le> get_p m" and "get_p m \<le> 1"
  shows "get_p m \<le> get_p m' \<and> om' = om\<lparr>on_deltas := []\<rparr>"
proof -
  from assms(1) have ne: "on_deltas om \<noteq> []"
    and res: "m' = set_p m (get_p m + on_alpha om * (sum_list (on_deltas om) / real (length (on_deltas om))))"
      "om' = om\<lparr>on_deltas := []\<rparr>"
    by (auto simp: online_step_def mean_def split: sum.splits if_splits)
  from assms(2) have "0 \<le> sum_list (on_deltas om)"
    by (auto simp: nonneg_def list_all_iff intro: sum_list_nonneg)
  then have "0 \<le> on_alpha om * (sum_list (on_deltas om) / real (length (on_deltas om)))"
    using assms(3) by simp
  from set_p_mono [OF this assms(5,4)] res show ?thesis by simp
qed

lemma call_online_mono:
  assumes c: "call s c = Inr s'" and on: "is_online_call c"
    and dm: "scored_as_demonstrated s [c]" and inv: "online_inv s"
  shows "get_p (model s) \<le> get_p (model s') \<and> online_inv s'"
proof (cases c)
  case (OfflineFit posts)
  with on show ?thesis by simp
next
  case OfflineStep
  with on show ?thesis by simp
next
  case (OnlineSample drawn)
  with c sample_loop_deltas [of "online_module s" drawn] inv show ?thesis
    by (auto simp: sample_def case_prod_beta online_inv_def)
next
  case (OnlineFit scores)
  with c obtain m' om' where f: "online_fit (model s, online_module s) scores = Inr (m', om')"
    and s': "s' = s\<lparr>model := m', online_module := om'\<rparr>"
    by (auto split: sum.splits)
  from dm OnlineFit have "demonstrated_scores (online_module s) scores" by simp
  from online_fit_nonneg [OF f this] inv s' show ?thesis
    by (auto simp: online_inv_def nonneg_def)
next
  case OnlineStep
  with c obtain m' om' where f: "online_step (model s, online_module s) = Inr (m', om')"
    and s': "s' = s\<lparr>model := m', online_module := om'\<rparr>"
    by (auto split: sum.splits)
  from inv have i: "nonneg (on_deltas (online_module s))" "0 \<le> on_alpha (online_module s)"
    "0 \<le> get_p (model s)" "get_p (model s) \<le> 1"
    by (simp_all add: online_inv_def)
  from online_step_mono [OF f i] have mono: "get_p (model s) \<le> get_p m'" and om': "om' = (online_module s)\<lparr>on_deltas := []\<rparr>"
    by simp_all
  from f have "m' = set_p (model s) (get_p (model s) + on_alpha (online_module s) * (sum_list (on_deltas (online_module s)) / real (length (on_deltas (online_module s)))))"
    by (auto simp: online_step_def mean_def split: sum.splits if_splits)
  with set_p_range have "0 \<le> get_p m' \<and> get_p m' \<le> 1" by simp
  with mono om' s' i show ?thesis
    by (simp add: online_inv_def nonneg_def)
qed

lemma calls_online_mono:
  "calls s cs = Inr s' \<Longrightarrow> list_all is_online_call cs \<Longrightarrow> scored_as_demonstrated s cs \<Longrightarrow>
   online_inv s \<Longrightarrow> get_p (model s) \<le> get_p (model s') \<and> online_inv s'"
proof (induction cs arbitrary: s)
  case Nil
  then show ?case by simp
next
  case (Cons c cs)
  from Cons.prems(1) obtain s1 where c1: "call s c = Inr s1" and rest: "calls s1 cs = Inr s'"
    by (auto split: sum.splits)
  from Cons.prems(2) have on: "is_online_call c" and ons: "list_all is_online_call cs"
    by simp_all
  from Cons.prems(3) c1 have d1: "scored_as_demonstrated s [c]" and ds: "scored_as_demonstrated s1 cs"
    by simp_all
  from call_online_mono [OF c1 on d1 Cons.prems(4)]
  have m1: "get_p (model s) \<le> get_p (model s1)" and i1: "online_inv s1"
    by simp_all
  from Cons.IH [OF rest ons ds i1] m1 show ?case
    by auto
qed

lemma scored_as_demonstrated_append:
  "calls s xs = Inr s' \<Longrightarrow>
   scored_as_demonstrated s (xs @ ys) = (scored_as_demonstrated s xs \<and> scored_as_demonstrated s' ys)"
  by (induction xs arbitrary: s) (auto split: sum.splits)

text \<open>
  C7. Under the demonstrated scoring (content True scored +1, content False scored -1),
  with the parameter in \<open>[0, 1]\<close>, a non-negative learning rate and no negative delta
  pending, a run of online calls (sample, fit, step) that raises no exception never
  decreases the parameter: between any two points \<open>s1\<close> and \<open>s2\<close> of the run the
  parameter at \<open>s2\<close> is at least the one at \<open>s1\<close>, and every delta that \<^verbatim>\<open>fit\<close> has
  accumulated is non-negative.
\<close>

theorem online_training_never_decreases_p:
  assumes "0 \<le> get_p (model s0)" and "get_p (model s0) \<le> 1"
    and "0 \<le> on_alpha (online_module s0)" and "nonneg (on_deltas (online_module s0))"
    and "list_all is_online_call (cs1 @ cs2)" and "scored_as_demonstrated s0 (cs1 @ cs2)"
    and "calls s0 cs1 = Inr s1" and "calls s1 cs2 = Inr s2"
  shows "get_p (model s1) \<le> get_p (model s2) \<and> nonneg (on_deltas (online_module s2))"
proof -
  from assms(1-4) have i0: "online_inv s0" by (simp add: online_inv_def)
  from assms(5) have o1: "list_all is_online_call cs1" and o2: "list_all is_online_call cs2"
    by simp_all
  from assms(6) scored_as_demonstrated_append [OF assms(7)]
  have d1: "scored_as_demonstrated s0 cs1" and d2: "scored_as_demonstrated s1 cs2"
    by simp_all
  from calls_online_mono [OF assms(7) o1 d1 i0] have i1: "online_inv s1" by simp
  from calls_online_mono [OF assms(8) o2 d2 i1] show ?thesis
    by (simp add: online_inv_def)
qed

text \<open>
  On the notebook's objects: a first round samples True and False and is scored +1 and -1,
  a second samples False and is scored -1; the parameter goes from 0.55 to 0.605.
\<close>

theorem online_training_never_decreases_p_witness:
  "calls notebook_init [OnlineSample [True, False], OnlineFit [(0, 1), (1, - 1)], OnlineStep]
     = Inr (notebook_init\<lparr>model := \<lparr>priv_p = 0.55\<rparr>,
            online_module := (online_module notebook_init)\<lparr>on_posts := [0 \<mapsto> True, 1 \<mapsto> False], on_i := 2\<rparr>\<rparr>)
   \<and> calls (notebook_init\<lparr>model := \<lparr>priv_p = 0.55\<rparr>,
            online_module := (online_module notebook_init)\<lparr>on_posts := [0 \<mapsto> True, 1 \<mapsto> False], on_i := 2\<rparr>\<rparr>)
         [OnlineSample [False], OnlineFit [(2, - 1)], OnlineStep]
     = Inr (notebook_init\<lparr>model := \<lparr>priv_p = 0.605\<rparr>,
            online_module := (online_module notebook_init)\<lparr>on_posts := [0 \<mapsto> True, 1 \<mapsto> False, 2 \<mapsto> False], on_i := 3\<rparr>\<rparr>)
   \<and> scored_as_demonstrated notebook_init
         ([OnlineSample [True, False], OnlineFit [(0, 1), (1, - 1)], OnlineStep]
          @ [OnlineSample [False], OnlineFit [(2, - 1)], OnlineStep])
   \<and> get_p \<lparr>priv_p = 0.55\<rparr> \<le> get_p \<lparr>priv_p = 0.605\<rparr>"
proof -
  let ?s1 = "notebook_init\<lparr>model := \<lparr>priv_p = 0.55\<rparr>,
            online_module := (online_module notebook_init)\<lparr>on_posts := [0 \<mapsto> True, 1 \<mapsto> False], on_i := 2\<rparr>\<rparr>"
  let ?s2 = "notebook_init\<lparr>model := \<lparr>priv_p = 0.605\<rparr>,
            online_module := (online_module notebook_init)\<lparr>on_posts := [0 \<mapsto> True, 1 \<mapsto> False, 2 \<mapsto> False], on_i := 3\<rparr>\<rparr>"
  have r1: "calls notebook_init [OnlineSample [True, False], OnlineFit [(0, 1), (1, - 1)], OnlineStep] = Inr ?s1"
    by (simp add: notebook_init_def Model_default_def Model_init_def MyOfflineModule_init_def
        MyOnlineModule_init_def online_fit_def online_step_def sample_def mean_def
        get_p_def set_p_def int_of_bool_def Let_def)
  have r2: "calls ?s1 [OnlineSample [False], OnlineFit [(2, - 1)], OnlineStep] = Inr ?s2"
    by (simp add: notebook_init_def Model_default_def Model_init_def MyOfflineModule_init_def
        MyOnlineModule_init_def online_fit_def online_step_def sample_def mean_def
        get_p_def set_p_def int_of_bool_def Let_def)
  have d: "scored_as_demonstrated notebook_init
         ([OnlineSample [True, False], OnlineFit [(0, 1), (1, - 1)], OnlineStep]
          @ [OnlineSample [False], OnlineFit [(2, - 1)], OnlineStep])"
    by (simp add: notebook_init_def Model_default_def Model_init_def MyOfflineModule_init_def
        MyOnlineModule_init_def online_fit_def online_step_def sample_def mean_def
        get_p_def set_p_def int_of_bool_def Let_def demonstrated_scores_def)
  have h1: "0 \<le> get_p (model notebook_init)" and h2: "get_p (model notebook_init) \<le> 1"
    by (simp_all add: notebook_init_p)
  have h3: "0 \<le> on_alpha (online_module notebook_init)"
    and h4: "nonneg (on_deltas (online_module notebook_init))"
    by (simp_all add: notebook_init_def MyOnlineModule_init_def nonneg_def)
  have h5: "list_all is_online_call ([OnlineSample [True, False], OnlineFit [(0, 1), (1, - 1)], OnlineStep]
          @ [OnlineSample [False], OnlineFit [(2, - 1)], OnlineStep])"
    by simp
  from online_training_never_decreases_p [OF h1 h2 h3 h4 h5 d r1 r2] r1 r2 d
  show ?thesis by simp
qed

section \<open>The face\<close>

lemma scrap_collect_Running:
  "scrap_collect f (Running n k) = (f, map (\<lambda>j. (j, j mod 3 = 0)) [k..n - 1])"
proof (induction "nat (n - k)" arbitrary: k)
  case 0
  then have "\<not> k < n" by simp
  then show ?case
    by (subst scrap_collect.simps) (simp add: scrap_loop_def)
next
  case (Suc d)
  then have lt: "k < n" and d: "d = nat (n - (k + 1))" by simp_all
  from Suc.hyps(1) [OF d] have IH: "scrap_collect f (Running n (k + 1)) = (f, map (\<lambda>j. (j, j mod 3 = 0)) [k + 1..n - 1])" .
  from lt have up: "[k..n - 1] = k # [k + 1..n - 1]"
    by (simp add: upto_rec1)
  show ?case
    by (subst scrap_collect.simps) (simp add: scrap_loop_def lt IH up)
qed

lemma scrap_all_eq:
  "scrap_all f limit =
     (f\<lparr>face_i := limit_or_100 limit + 1\<rparr>,
      map (\<lambda>j. (j, j mod 3 = 0)) [0..limit_or_100 limit - 1])"
proof (cases "0 < limit_or_100 limit")
  case True
  then have up: "[0..limit_or_100 limit - 1] = 0 # [1..limit_or_100 limit - 1]"
    by (simp add: upto_rec1)
  show ?thesis
    unfolding scrap_all_def scrap_def
    by (subst scrap_collect.simps) (simp add: scrap_loop_def True Let_def scrap_collect_Running up)
next
  case False
  then show ?thesis
    unfolding scrap_all_def scrap_def
    by (subst scrap_collect.simps) (simp add: scrap_loop_def Let_def)
qed

text \<open>
  C3. The calling convention of \<^verbatim>\<open>MyFace\<close>. \<^verbatim>\<open>scrap(limit)\<close> is lazy: the call only
  creates the generator, and each request runs the body up to the next \<^verbatim>\<open>yield\<close>. With
  \<open>n = limit\<close> if \<open>limit\<close> is truthy and 100 otherwise, the first request sets the
  counter to \<open>n + 1\<close>, and consumed to the end the generator has yielded exactly the
  pairs \<open>(i, i mod 3 = 0)\<close> for \<open>i = 0, ..., n - 1\<close> in order (none when \<open>n\<close> is
  negative). \<^verbatim>\<open>post(data)\<close> stores the content under the counter, returns that
  identifier and increments the counter. \<^verbatim>\<open>score(post_id)\<close> returns +1 when the stored
  content is True and -1 when it is False (and raises \<^verbatim>\<open>KeyError\<close> when nothing is
  stored).
\<close>

theorem face_calling_convention:
  "scrap f limit = Created limit
   \<and> limit_or_100 limit = (case limit of None \<Rightarrow> 100 | Some l \<Rightarrow> if l = 0 then 100 else l)
   \<and> scrap_next f (scrap f limit) =
       (if 0 < limit_or_100 limit
        then (f\<lparr>face_i := limit_or_100 limit + 1\<rparr>, Running (limit_or_100 limit) 1, Some (0, True))
        else (f\<lparr>face_i := limit_or_100 limit + 1\<rparr>, Exhausted, None))
   \<and> scrap_next f (Running n k) =
       (if k < n then (f, Running n (k + 1), Some (k, k mod 3 = 0)) else (f, Exhausted, None))
   \<and> scrap_all f limit =
       (f\<lparr>face_i := limit_or_100 limit + 1\<rparr>, map (\<lambda>i. (i, i mod 3 = 0)) [0..limit_or_100 limit - 1])
   \<and> length (snd (scrap_all f limit)) = nat (limit_or_100 limit)
   \<and> post f data =
       (f\<lparr>face_i := face_i f + 1, face_posts := (face_posts f)(face_i f \<mapsto> data)\<rparr>, face_i f)
   \<and> score (fst (post f data)) (snd (post f data)) = Inr (if data then 1 else - 1)
   \<and> score f post_id =
       (case face_posts f post_id of
          None \<Rightarrow> Inl KeyError
        | Some content \<Rightarrow> Inr (if content then 1 else - 1))"
  by (simp add: scrap_def limit_or_100_def scrap_all_eq scrap_loop_def Let_def
      post_def score_def int_of_bool_def split: option.splits)

text \<open>
  On a fresh face: \<^verbatim>\<open>scrap(4)\<close> yields four pairs and leaves the counter at 5, and a
  post of True is stored under the counter and scored +1.
\<close>

theorem face_calling_convention_witness:
  "scrap_all MyFace_init (Some 4) =
     (MyFace_init\<lparr>face_i := 5\<rparr>, [(0, True), (1, False), (2, False), (3, True)])
   \<and> scrap_next MyFace_init (scrap MyFace_init (Some 4)) =
       (MyFace_init\<lparr>face_i := 5\<rparr>, Running 4 1, Some (0, True))
   \<and> post MyFace_init True = (MyFace_init\<lparr>face_i := 1, face_posts := [0 \<mapsto> True]\<rparr>, 0)
   \<and> score (MyFace_init\<lparr>face_i := 1, face_posts := [0 \<mapsto> True]\<rparr>) 0 = Inr 1
   \<and> score (MyFace_init\<lparr>face_i := 1, face_posts := [0 \<mapsto> True]\<rparr>) 1 = Inl KeyError"
  using face_calling_convention [of MyFace_init "Some 4" 4 1 True 0]
    face_calling_convention [of "MyFace_init\<lparr>face_i := 1, face_posts := [0 \<mapsto> True]\<rparr>" "Some 4" 4 1 True 0]
    face_calling_convention [of "MyFace_init\<lparr>face_i := 1, face_posts := [0 \<mapsto> True]\<rparr>" "Some 4" 4 1 True 1]
  by (simp add: MyFace_init_def limit_or_100_def upto_rec1 scrap_def scrap_loop_def)

section \<open>Identifiers produced by the face\<close>




















lemmas lazy_defs =
  lazy_calls_def lazy_start_def identifiers_def post_def MyFace_init_def scrap_def scrap_loop_def
  limit_or_100_def Let_def


text \<open>
  Three more runs with a repeated identifier. The call of \<^verbatim>\<open>scrap\<close> comes before the post
  but its first item is requested after it: the counter is assigned at the first request,
  and both return 0. A second scrape is consumed after a first: it yields 0 again. A
  second scrape is started after two posts: it assigns the counter anew, and the next
  posts return identifiers that are in use.
\<close>

lemma scrap_started_after_post_repeats:
  "identifiers (lazy_calls MyFace_init [CallScrap (Some 2), CallPost True, Request 0]) = [0, 0]"
  by (simp add: lazy_defs)

lemma second_scrap_repeats:
  "identifiers (lazy_calls MyFace_init
     [CallScrap (Some 1), Request 0, CallScrap (Some 1), Request 1]) = [0, 0]"
  by (simp add: lazy_defs)

lemma second_scrap_resets_counter:
  "identifiers (lazy_calls MyFace_init
     [CallScrap (Some 1), Request 0, CallPost True, CallPost True, CallScrap (Some (- 1)), Request 1,
      CallPost True, CallPost True, CallPost True]) = [0, 2, 3, 0, 1, 2]"
  by (simp add: lazy_defs)



section \<open>Scores exist for posted identifiers only\<close>

lemma face_do_dom:
  "dom (face_posts (run_face r)) = set (posted r) \<Longrightarrow>
   dom (face_posts (run_face (face_do r c))) = set (posted (face_do r c))"
  by (cases c) (auto simp: scrap_all_eq post_def Let_def)

lemma face_calls_dom:
  "dom (face_posts (run_face (face_calls MyFace_init cs))) = set (posted (face_calls MyFace_init cs))"
proof (induction cs rule: rev_induct)
  case Nil
  then show ?case by (simp add: face_calls_def MyFace_init_def)
next
  case (snoc c cs)
  have "face_calls MyFace_init (cs @ [c]) = face_do (face_calls MyFace_init cs) c"
    by (simp add: face_calls_def)
  with face_do_dom [OF snoc.IH] show ?case by simp
qed

text \<open>
  C5. After any sequence of \<^verbatim>\<open>scrap\<close> and \<^verbatim>\<open>post\<close> calls on a fresh face,
  \<^verbatim>\<open>score(post_id)\<close> returns a number (+1 or -1, from the stored content) when
  \<^verbatim>\<open>post_id\<close> was returned by an earlier \<^verbatim>\<open>post\<close>, and raises \<^verbatim>\<open>KeyError\<close> for every
  other identifier, those that were only yielded by \<^verbatim>\<open>scrap\<close> included.
\<close>

theorem score_only_for_posted:
  "(post_id \<in> set (posted (face_calls MyFace_init cs)) \<longrightarrow>
      (\<exists>data. face_posts (run_face (face_calls MyFace_init cs)) post_id = Some data
            \<and> score (run_face (face_calls MyFace_init cs)) post_id = Inr (if data then 1 else - 1)))
   \<and> (post_id \<notin> set (posted (face_calls MyFace_init cs)) \<longrightarrow>
        score (run_face (face_calls MyFace_init cs)) post_id = Inl KeyError)"
proof -
  from face_calls_dom [of cs]
  have "post_id \<in> set (posted (face_calls MyFace_init cs)) \<longleftrightarrow>
        face_posts (run_face (face_calls MyFace_init cs)) post_id \<noteq> None"
    by (auto simp: dom_def)
  then show ?thesis
    by (auto simp: score_def int_of_bool_def split: option.splits)
qed

text \<open>
  On a fresh face, after a scrap of two posts and one post of True: the post got
  identifier 3 and scores +1; the scraped identifier 0 and the unused 2 raise.
\<close>

theorem score_only_for_posted_witness:
  "scrapped (face_calls MyFace_init [Scrap (Some 2), Post True]) = [0, 1]
   \<and> posted (face_calls MyFace_init [Scrap (Some 2), Post True]) = [3]
   \<and> score (run_face (face_calls MyFace_init [Scrap (Some 2), Post True])) 3 = Inr 1
   \<and> score (run_face (face_calls MyFace_init [Scrap (Some 2), Post True])) 0 = Inl KeyError
   \<and> score (run_face (face_calls MyFace_init [Scrap (Some 2), Post True])) 2 = Inl KeyError"
  using score_only_for_posted [of 3 "[Scrap (Some 2), Post True]"]
    score_only_for_posted [of 0 "[Scrap (Some 2), Post True]"]
    score_only_for_posted [of 2 "[Scrap (Some 2), Post True]"]
  by (auto simp: face_calls_def post_def MyFace_init_def scrap_all_eq limit_or_100_def
      upto_rec1 Let_def)

section \<open>What the offline trainer does\<close>

text \<open>
  The definitions needed to run the engine on concrete arguments.
\<close>

lemmas run_defs =
  offline_start_def online_start_def stop_state_init_def MaxEpochs_def MaxUpdates_def
  load_posts_def scrap_all_eq limit_or_100_def upto_rec1 batches.simps
  notebook_offline_ops_def notebook_online_ops_def
  offline_fit_def offline_step_def online_fit_def online_step_def sample_def mean_def
  Model_default_def Model_init_def MyOfflineModule_init_def MyOnlineModule_init_def
  MyFace_init_def get_p_def set_p_def int_of_bool_def post_def score_def
  online_cycle_def Let_def numeral_2_eq_2 numeral_3_eq_3

lemma batches_length: "b \<in> set (batches n xs) \<Longrightarrow> length b = n"
proof (induction n xs rule: batches.induct)
  case (1 n xs)
  show ?case
  proof (cases "n = 0 \<or> length xs < n")
    case True
    with "1.prems" show ?thesis
      by (subst (asm) batches.simps) simp
  next
    case False
    from "1.prems" have "b = take n xs \<or> b \<in> set (batches n (drop n xs))"
      by (subst (asm) batches.simps) (simp add: False)
    with "1.IH" [OF False] False show ?thesis
      by auto
  qed
qed

lemma fit_then_step_log:
  "fit_then_step M s bs = Inr s' \<Longrightarrow>
     o_events s' = o_events s @ concat (map (\<lambda>b. [Fit b, Step]) bs)
   \<and> o_dataset s' = o_dataset s \<and> o_face s' = o_face s
   \<and> epochs (o_stop s') = epochs (o_stop s)
   \<and> updates (o_stop s') = updates (o_stop s) + length bs"
proof (induction bs arbitrary: s)
  case Nil
  then show ?case by simp
next
  case (Cons b bs)
  from Cons.prems obtain m1 m2 where f: "fit M (o_module s) b = Inr m1" and st: "step M m1 = Inr m2"
    and rest: "fit_then_step M
                 (s\<lparr>o_module := m2,
                    o_stop := (o_stop s)\<lparr>updates := updates (o_stop s) + 1\<rparr>,
                    o_events := o_events s @ [Fit b, Step]\<rparr>) bs = Inr s'"
    by (auto split: sum.splits)
  from Cons.IH [OF rest] show ?case by simp
qed

lemma replay_offline_append:
  "replay_offline M m (xs @ ys) =
     (case replay_offline M m xs of Inl e \<Rightarrow> Inl e | Inr m' \<Rightarrow> replay_offline M m' ys)"
  by (induction M m xs rule: replay_offline.induct) (auto split: sum.splits)

lemma fit_then_step_replay:
  "fit_then_step M s bs = Inr s' \<Longrightarrow>
   replay_offline M (o_module s) (concat (map (\<lambda>b. [Fit b, Step]) bs)) = Inr (o_module s')"
proof (induction bs arbitrary: s)
  case Nil
  then show ?case by simp
next
  case (Cons b bs)
  from Cons.prems obtain m1 m2 where f: "fit M (o_module s) b = Inr m1" and st: "step M m1 = Inr m2"
    and rest: "fit_then_step M
                 (s\<lparr>o_module := m2,
                    o_stop := (o_stop s)\<lparr>updates := updates (o_stop s) + 1\<rparr>,
                    o_events := o_events s @ [Fit b, Step]\<rparr>) bs = Inr s'"
    by (auto split: sum.splits)
  from Cons.IH [OF rest] f st show ?case by simp
qed

lemma store_cached: "cached (store d ps) = Some ps"
  by (cases d) simp_all

lemma load_posts_log:
  "load_posts s = (ps, s2) \<Longrightarrow>
     o_events s2 = o_events s @ (if cached (o_dataset s) = None then [FaceScrap] else [])
   \<and> cached (o_dataset s2) \<noteq> None \<and> o_module s2 = o_module s \<and> o_stop s2 = o_stop s"
  by (auto simp: load_posts_def store_cached split: option.splits prod.splits)

lemma epoch_log_replay:
  "replay_offline M m (epoch_log (c, bs)) = replay_offline M m (concat (map (\<lambda>b. [Fit b, Step]) bs))"
  by (simp add: epoch_log_def)

lemma offline_loop_log:
  "offline_loop fuel T M s = Some (Inr s') \<Longrightarrow>
   \<exists>es. o_events s' = o_events s @ concat (map epoch_log es) @ [QueryStop]
       \<and> epochs (o_stop s') = epochs (o_stop s) + length es
       \<and> stop_condition T (o_stop s')
       \<and> list_all (\<lambda>e. list_all (\<lambda>b. length b = batch_size (posts_loader T)) (snd e)) es
       \<and> (cached (o_dataset s) \<noteq> None \<longrightarrow> list_all (\<lambda>e. \<not> fst e) es)
       \<and> list_all (\<lambda>e. \<not> fst e) (tl es)
       \<and> replay_offline M (o_module s) (concat (map epoch_log es) @ [QueryStop]) = Inr (o_module s')"
proof (induction fuel arbitrary: s)
  case 0
  then show ?case by simp
next
  case (Suc fuel)
  let ?s1 = "s\<lparr>o_events := o_events s @ [QueryStop]\<rparr>"
  show ?case
  proof (cases "stop_condition T (o_stop s)")
    case True
    with Suc.prems have "s' = ?s1" by (simp add: Let_def)
    with True show ?thesis
      by (intro exI [of _ "[]"]) simp
  next
    case False
    obtain ps s2 where ld: "load_posts ?s1 = (ps, s2)" by (cases "load_posts ?s1")
    let ?bs = "batches (batch_size (posts_loader T)) (map snd ps)"
    from Suc.prems False ld obtain s3 where fts: "fit_then_step M s2 ?bs = Inr s3"
      and rest: "offline_loop fuel T M (s3\<lparr>o_stop := (o_stop s3)\<lparr>epochs := epochs (o_stop s3) + 1\<rparr>\<rparr>) = Some (Inr s')"
      by (auto simp: Let_def split: sum.splits)
    let ?s3 = "s3\<lparr>o_stop := (o_stop s3)\<lparr>epochs := epochs (o_stop s3) + 1\<rparr>\<rparr>"
    let ?c = "cached (o_dataset s) = None"
    from load_posts_log [OF ld]
    have e2: "o_events s2 = o_events s @ [QueryStop] @ (if ?c then [FaceScrap] else [])"
      and c2: "cached (o_dataset s2) \<noteq> None" and m2: "o_module s2 = o_module s"
      and st2: "o_stop s2 = o_stop s"
      by simp_all
    from fit_then_step_log [OF fts]
    have e3: "o_events s3 = o_events s2 @ concat (map (\<lambda>b. [Fit b, Step]) ?bs)"
      and d3: "o_dataset s3 = o_dataset s2" and ep3: "epochs (o_stop s3) = epochs (o_stop s2)"
      by simp_all
    from fit_then_step_replay [OF fts] m2
    have r3: "replay_offline M (o_module s) (concat (map (\<lambda>b. [Fit b, Step]) ?bs)) = Inr (o_module s3)"
      by simp
    from Suc.IH [OF rest] obtain es where
      ev: "o_events s' = o_events ?s3 @ concat (map epoch_log es) @ [QueryStop]"
      and ep: "epochs (o_stop s') = epochs (o_stop ?s3) + length es"
      and sc: "stop_condition T (o_stop s')"
      and bl: "list_all (\<lambda>e. list_all (\<lambda>b. length b = batch_size (posts_loader T)) (snd e)) es"
      and ns: "cached (o_dataset ?s3) \<noteq> None \<longrightarrow> list_all (\<lambda>e. \<not> fst e) es"
      and rp: "replay_offline M (o_module ?s3) (concat (map epoch_log es) @ [QueryStop]) = Inr (o_module s')"
      by blast
    from ns c2 d3 have ns': "list_all (\<lambda>e. \<not> fst e) es" by simp
    have el: "epoch_log (?c, ?bs) = [QueryStop] @ (if ?c then [FaceScrap] else []) @ concat (map (\<lambda>b. [Fit b, Step]) ?bs)"
      by (simp add: epoch_log_def)
    have bl0: "list_all (\<lambda>b. length b = batch_size (posts_loader T)) ?bs"
      by (simp add: list_all_iff batches_length)
    have "o_events s' = o_events s @ concat (map epoch_log ((?c, ?bs) # es)) @ [QueryStop]"
      using ev e3 e2 el by simp
    moreover have "epochs (o_stop s') = epochs (o_stop s) + length ((?c, ?bs) # es)"
      using ep ep3 st2 by simp
    moreover have "list_all (\<lambda>e. list_all (\<lambda>b. length b = batch_size (posts_loader T)) (snd e)) ((?c, ?bs) # es)"
      using bl bl0 by simp
    moreover have "cached (o_dataset s) \<noteq> None \<longrightarrow> list_all (\<lambda>e. \<not> fst e) ((?c, ?bs) # es)"
      using ns' by simp
    moreover have "list_all (\<lambda>e. \<not> fst e) (tl ((?c, ?bs) # es))"
      using ns' by simp
    moreover have "replay_offline M (o_module s) (concat (map epoch_log ((?c, ?bs) # es)) @ [QueryStop]) = Inr (o_module s')"
      using rp r3 by (simp add: replay_offline_append epoch_log_replay del: append_assoc)
    ultimately show ?thesis using sc by blast
  qed
qed


lemma notebook_fit_then_step_ok:
  "list_all (\<lambda>b. b \<noteq> []) bs \<Longrightarrow> \<exists>s'. fit_then_step notebook_offline_ops s bs = Inr s'"
proof (induction bs arbitrary: s)
  case Nil
  then show ?case by simp
next
  case (Cons b bs)
  obtain m om where mo: "o_module s = (m, om)" by (cases "o_module s")
  from Cons.prems have ne: "b \<noteq> []" and rest: "list_all (\<lambda>b. b \<noteq> []) bs" by simp_all
  from ne obtain om1 where f: "offline_fit (m, om) b = Inr (m, om1)" and d: "off_deltas om1 \<noteq> []"
    by (auto simp: offline_fit_def Let_def)
  from d obtain m2 om2 where st: "offline_step (m, om1) = Inr (m2, om2)"
    by (auto simp: offline_step_def mean_def)
  from Cons.IH [OF rest] f st mo show ?case
    by (simp add: notebook_offline_ops_def)
qed

lemma offline_demo_terminates:
  "epochs (o_stop s) \<le> 100 \<Longrightarrow> 100 - epochs (o_stop s) < fuel \<Longrightarrow>
   \<exists>s'. offline_loop fuel offline_trainer notebook_offline_ops s = Some (Inr s')
        \<and> epochs (o_stop s') = 100"
proof (induction fuel arbitrary: s)
  case 0
  then show ?case by simp
next
  case (Suc fuel)
  let ?s1 = "s\<lparr>o_events := o_events s @ [QueryStop]\<rparr>"
  show ?case
  proof (cases "stop_condition offline_trainer (o_stop s)")
    case True
    then have "100 \<le> epochs (o_stop s)"
      by (simp add: offline_trainer_def MaxEpochs_def)
    with Suc.prems(1) True show ?thesis
      by (simp add: Let_def)
  next
    case False
    then have lt: "epochs (o_stop s) < 100"
      by (simp add: offline_trainer_def MaxEpochs_def)
    obtain ps s2 where ld: "load_posts ?s1 = (ps, s2)" by (cases "load_posts ?s1")
    let ?bs = "batches (batch_size (posts_loader offline_trainer)) (map snd ps)"
    have "list_all (\<lambda>b. length b = 1) ?bs"
      using batches_length [of _ "batch_size (posts_loader offline_trainer)" "map snd ps"]
      by (simp add: list_all_iff offline_trainer_def)
    then have "list_all (\<lambda>b. b \<noteq> []) ?bs"
      by (auto simp: list_all_iff)
    from notebook_fit_then_step_ok [OF this] obtain s3
      where fts: "fit_then_step notebook_offline_ops s2 ?bs = Inr s3" by blast
    let ?s3 = "s3\<lparr>o_stop := (o_stop s3)\<lparr>epochs := epochs (o_stop s3) + 1\<rparr>\<rparr>"
    from fit_then_step_log [OF fts] load_posts_log [OF ld]
    have ep: "epochs (o_stop s3) = epochs (o_stop s)" by simp
    with lt Suc.prems(2) have "epochs (o_stop ?s3) \<le> 100" and "100 - epochs (o_stop ?s3) < fuel"
      by simp_all
    from Suc.IH [OF this] obtain s' where
      "offline_loop fuel offline_trainer notebook_offline_ops ?s3 = Some (Inr s')"
      and "epochs (o_stop s') = 100" by blast
    with False ld fts show ?thesis
      by (simp add: Let_def)
  qed
qed

lemma offline_start_fields:
  "o_events (offline_start T limit m f) = [] \<and> o_module (offline_start T limit m f) = m
   \<and> o_stop (offline_start T limit m f) = stop_state_init
   \<and> cached (o_dataset (offline_start T limit m f)) = None"
  by (cases "dataset_factory (posts_loader T)") (simp_all add: offline_start_def)

text \<open>
  C1. \<^verbatim>\<open>train(module, face)\<close> of the offline trainer: whenever it returns, its log is a
  sequence of epochs followed by the query that ended the training; each epoch is a query
  of the stop condition, possibly the scrape of the face, and then cycles "fit on a
  batch, step", every batch having exactly \<open>batch_size\<close> posts; the stop condition is
  satisfied at the end; and what \<^verbatim>\<open>train\<close> returns is the module as the last step left
  it. With the notebook's trainer (\<^verbatim>\<open>MaxEpochs(100)\<close>, batch size 1) and offline module,
  on any face state, model and module state, the training does return, without an
  exception, after exactly 100 epochs (101 queries suffice as fuel).
\<close>

theorem offline_train_cycles:
  "(\<forall>s. offline_loop fuel T M (offline_start T limit m f) = Some (Inr s) \<longrightarrow>
        (\<exists>es. o_events s = concat (map epoch_log es) @ [QueryStop]
            \<and> length es = epochs (o_stop s)
            \<and> list_all (\<lambda>e. list_all (\<lambda>b. length b = batch_size (posts_loader T)) (snd e)) es)
      \<and> stop_condition T (o_stop s)
      \<and> offline_train fuel T limit M m f = Some (Inr (o_module s)))
   \<and> (100 < fuel' \<longrightarrow>
        (\<exists>s. offline_loop fuel' offline_trainer notebook_offline_ops
                (offline_start offline_trainer limit' m' f') = Some (Inr s)
           \<and> epochs (o_stop s) = 100
           \<and> MaxEpochs 100 (o_stop s)
           \<and> batch_size (posts_loader offline_trainer) = 1))"
proof -
  have a: "(\<exists>es. o_events s = concat (map epoch_log es) @ [QueryStop]
            \<and> length es = epochs (o_stop s)
            \<and> list_all (\<lambda>e. list_all (\<lambda>b. length b = batch_size (posts_loader T)) (snd e)) es)
      \<and> stop_condition T (o_stop s)
      \<and> offline_train fuel T limit M m f = Some (Inr (o_module s))"
    if run: "offline_loop fuel T M (offline_start T limit m f) = Some (Inr s)" for s
  proof -
    from offline_loop_log [OF run] offline_start_fields [of T limit m f]
    obtain es where "o_events s = concat (map epoch_log es) @ [QueryStop]"
      and "epochs (o_stop s) = length es"
      and "stop_condition T (o_stop s)"
      and "list_all (\<lambda>e. list_all (\<lambda>b. length b = batch_size (posts_loader T)) (snd e)) es"
      by (auto simp: stop_state_init_def)
    moreover from run have "offline_train fuel T limit M m f = Some (Inr (o_module s))"
      by (simp add: offline_train_def)
    ultimately show ?thesis by auto
  qed
  have b: "\<exists>s. offline_loop fuel' offline_trainer notebook_offline_ops
                (offline_start offline_trainer limit' m' f') = Some (Inr s)
           \<and> epochs (o_stop s) = 100
           \<and> MaxEpochs 100 (o_stop s)
           \<and> batch_size (posts_loader offline_trainer) = 1"
    if "100 < fuel'"
  proof -
    have "epochs (o_stop (offline_start offline_trainer limit' m' f')) \<le> 100"
      and "100 - epochs (o_stop (offline_start offline_trainer limit' m' f')) < fuel'"
      using that by (simp_all add: offline_start_def stop_state_init_def)
    from offline_demo_terminates [OF this] show ?thesis
      by (auto simp: MaxEpochs_def offline_trainer_def)
  qed
  from a b show ?thesis by blast
qed

text \<open>
  A run small enough to evaluate: one epoch over a scrape of two posts with the notebook's
  module; and the notebook's own training, which returns with 101 units of fuel.
\<close>

theorem offline_train_cycles_witness:
  "offline_train 2
     \<lparr>stop_condition = MaxEpochs 1,
      posts_loader = \<lparr>batch_size = 1, dataset_factory = MemoryCachingDatasetFactory\<rparr>\<rparr>
     (Some 2) notebook_offline_ops (Model_default, MyOfflineModule_init 0.001) MyFace_init
     = Some (Inr (\<lparr>priv_p = 999999 / 2000000\<rparr>, \<lparr>off_deltas = [], off_alpha = 0.001\<rparr>))
   \<and> (case offline_loop 2
         \<lparr>stop_condition = MaxEpochs 1,
          posts_loader = \<lparr>batch_size = 1, dataset_factory = MemoryCachingDatasetFactory\<rparr>\<rparr>
         notebook_offline_ops
         (offline_start
            \<lparr>stop_condition = MaxEpochs 1,
             posts_loader = \<lparr>batch_size = 1, dataset_factory = MemoryCachingDatasetFactory\<rparr>\<rparr>
            (Some 2) (Model_default, MyOfflineModule_init 0.001) MyFace_init) of
         Some (Inr s) \<Rightarrow> o_events s = [QueryStop, FaceScrap, Fit [True], Step, Fit [False], Step, QueryStop]
                          \<and> o_stop s = \<lparr>epochs = 1, updates = 2\<rparr>
       | _ \<Rightarrow> False)
   \<and> (\<exists>s. offline_loop 101 offline_trainer notebook_offline_ops
              (offline_start offline_trainer None (Model_default, MyOfflineModule_init 0.001) MyFace_init)
            = Some (Inr s)
          \<and> epochs (o_stop s) = 100)"
proof -
  let ?T = "\<lparr>stop_condition = MaxEpochs 1,
      posts_loader = \<lparr>batch_size = 1, dataset_factory = MemoryCachingDatasetFactory\<rparr>\<rparr>"
  obtain s where run: "offline_loop 2 ?T notebook_offline_ops
         (offline_start ?T (Some 2) (Model_default, MyOfflineModule_init 0.001) MyFace_init) = Some (Inr s)"
    and ev: "o_events s = [QueryStop, FaceScrap, Fit [True], Step, Fit [False], Step, QueryStop]"
    and st: "o_stop s = \<lparr>epochs = 1, updates = 2\<rparr>"
    and md: "o_module s = (\<lparr>priv_p = 999999 / 2000000\<rparr>, \<lparr>off_deltas = [], off_alpha = 0.001\<rparr>)"
    by (simp add: run_defs)
  note th = offline_train_cycles [of 2 ?T notebook_offline_ops "Some 2"
      "(Model_default, MyOfflineModule_init 0.001)" MyFace_init 101 None
      "(Model_default, MyOfflineModule_init 0.001)" MyFace_init]
  from th run have tr: "offline_train 2 ?T (Some 2) notebook_offline_ops
      (Model_default, MyOfflineModule_init 0.001) MyFace_init = Some (Inr (o_module s))"
    by blast
  from th have demo: "\<exists>s. offline_loop 101 offline_trainer notebook_offline_ops
              (offline_start offline_trainer None (Model_default, MyOfflineModule_init 0.001) MyFace_init)
            = Some (Inr s)
          \<and> epochs (o_stop s) = 100"
    by auto
  from tr md run ev st demo show ?thesis by simp
qed

section \<open>Caching and the scrape\<close>

lemma filter_scrap_cycles:
  "filter (\<lambda>e. e = FaceScrap) (concat (map (\<lambda>b. [Fit b, Step]) bs)) = []"
  by (induction bs) simp_all

lemma filter_scrap_epoch:
  "filter (\<lambda>e. e = FaceScrap) (epoch_log e) = (if fst e then [FaceScrap] else [])"
  by (simp add: epoch_log_def filter_scrap_cycles)

lemma no_scrap_in_later_epochs:
  "list_all (\<lambda>e. \<not> fst e) es \<Longrightarrow> filter (\<lambda>e. e = FaceScrap) (concat (map epoch_log es)) = []"
  by (induction es) (simp_all add: filter_scrap_epoch)

lemma scrap_count_epoch: "length (filter (\<lambda>e. e = FaceScrap) (epoch_log e)) \<le> 1"
  by (simp add: filter_scrap_epoch)

text \<open>
  C6. There are two caching strategies, in memory and file-backed, and with either of
  them an offline training that returns has scraped the face at most once: in the log,
  split into epochs, no epoch after the first contains a scrape.
\<close>

theorem caching_scrapes_once:
  "MemoryCachingDatasetFactory \<noteq> FileCachingDatasetFactory
   \<and> (\<forall>s. offline_loop fuel T M (offline_start T limit m f) = Some (Inr s) \<longrightarrow>
        (\<exists>es. o_events s = concat (map epoch_log es) @ [QueryStop]
            \<and> length es = epochs (o_stop s)
            \<and> list_all (\<lambda>e. \<not> fst e) (tl es))
      \<and> length (filter (\<lambda>e. e = FaceScrap) (o_events s)) \<le> 1)"
proof -
  have a: "(\<exists>es. o_events s = concat (map epoch_log es) @ [QueryStop]
            \<and> length es = epochs (o_stop s)
            \<and> list_all (\<lambda>e. \<not> fst e) (tl es))
      \<and> length (filter (\<lambda>e. e = FaceScrap) (o_events s)) \<le> 1"
    if run: "offline_loop fuel T M (offline_start T limit m f) = Some (Inr s)" for s
  proof -
    from offline_loop_log [OF run] offline_start_fields [of T limit m f]
    obtain es where ev: "o_events s = concat (map epoch_log es) @ [QueryStop]"
      and ep: "epochs (o_stop s) = length es"
      and tl: "list_all (\<lambda>e. \<not> fst e) (tl es)"
      by (auto simp: stop_state_init_def)
    have "length (filter (\<lambda>e. e = FaceScrap) (concat (map epoch_log es))) \<le> 1"
    proof (cases es)
      case Nil
      then show ?thesis by simp
    next
      case (Cons e es')
      with tl no_scrap_in_later_epochs [of es'] scrap_count_epoch [of e] show ?thesis
        by simp
    qed
    with ev have "length (filter (\<lambda>e. e = FaceScrap) (o_events s)) \<le> 1"
      by simp
    with ev ep tl show ?thesis by metis
  qed
  then show ?thesis by simp
qed


text \<open>
  Two epochs with the file-backed strategy, batch size 2 and a scrape of five posts: the
  scrape happens once, in the first epoch.
\<close>

theorem caching_scrapes_once_witness:
  "(case offline_loop 3
         \<lparr>stop_condition = MaxEpochs 2,
          posts_loader = \<lparr>batch_size = 2, dataset_factory = FileCachingDatasetFactory\<rparr>\<rparr>
         notebook_offline_ops
         (offline_start
            \<lparr>stop_condition = MaxEpochs 2,
             posts_loader = \<lparr>batch_size = 2, dataset_factory = FileCachingDatasetFactory\<rparr>\<rparr>
            (Some 5) (Model_default, MyOfflineModule_init 0.001) MyFace_init) of
         Some (Inr s) \<Rightarrow>
           o_events s = [QueryStop, FaceScrap, Fit [True, False], Step, Fit [False, True], Step,
                         QueryStop, Fit [True, False], Step, Fit [False, True], Step, QueryStop]
           \<and> length (filter (\<lambda>e. e = FaceScrap) (o_events s)) \<le> 1
       | _ \<Rightarrow> False)"
proof -
  let ?T = "\<lparr>stop_condition = MaxEpochs 2,
          posts_loader = \<lparr>batch_size = 2, dataset_factory = FileCachingDatasetFactory\<rparr>\<rparr>"
  obtain s where run: "offline_loop 3 ?T notebook_offline_ops
         (offline_start ?T (Some 5) (Model_default, MyOfflineModule_init 0.001) MyFace_init) = Some (Inr s)"
    and ev: "o_events s = [QueryStop, FaceScrap, Fit [True, False], Step, Fit [False, True], Step,
                         QueryStop, Fit [True, False], Step, Fit [False, True], Step, QueryStop]"
    by (simp add: run_defs)
  from caching_scrapes_once [of 3 ?T notebook_offline_ops "Some 5"
      "(Model_default, MyOfflineModule_init 0.001)" MyFace_init] run
  have "length (filter (\<lambda>e. e = FaceScrap) (o_events s)) \<le> 1" by blast
  with run ev show ?thesis by simp
qed

section \<open>What the online trainer does\<close>

lemma publish_ids:
  "publish f xs = (f', ids) \<Longrightarrow>
   length ids = length xs \<and> set ids \<subseteq> dom (face_posts f') \<and> dom (face_posts f) \<subseteq> dom (face_posts f')"
proof (induction xs arbitrary: f f' ids)
  case Nil
  then show ?case by simp
next
  case (Cons x xs)
  obtain f1 post_id where p: "post f x = (f1, post_id)" by (cases "post f x")
  obtain f2 ids2 where r: "publish f1 xs = (f2, ids2)" by (cases "publish f1 xs")
  from Cons.prems p r have res: "f' = f2" "ids = post_id # ids2" by simp_all
  from p have d1: "dom (face_posts f1) = insert post_id (dom (face_posts f))"
    by (auto simp: post_def Let_def)
  from Cons.IH [OF r] d1 res show ?case by auto
qed

lemma collect_ok:
  "set ids \<subseteq> dom (face_posts f) \<Longrightarrow> \<exists>vs. collect f ids = Inr vs \<and> length vs = length ids"
proof (induction ids)
  case Nil
  then show ?case by simp
next
  case (Cons post_id ids)
  then obtain vs where c: "collect f ids = Inr vs" and l: "length vs = length ids" by auto
  from Cons.prems obtain d where "face_posts f post_id = Some d" by auto
  then have "score f post_id = Inr (int_of_bool d * 2 - 1)" by (simp add: score_def)
  with c l show ?case by simp
qed

lemma collect_length: "collect f ids = Inr vs \<Longrightarrow> length vs = length ids"
  by (induction ids arbitrary: vs) (auto split: sum.splits)

lemma sample_loop_items:
  "sample_loop om drawn = (om', items) \<Longrightarrow>
   length items = length drawn \<and> fst ` set items \<subseteq> dom (on_posts om')
   \<and> dom (on_posts om) \<subseteq> dom (on_posts om')"
proof (induction drawn arbitrary: om om' items)
  case Nil
  then show ?case by simp
next
  case (Cons x drawn)
  let ?om2 = "om\<lparr>on_posts := (on_posts om)(on_i om \<mapsto> x), on_i := on_i om + 1\<rparr>"
  obtain om3 items3 where r: "sample_loop ?om2 drawn = (om3, items3)"
    by (cases "sample_loop ?om2 drawn")
  from Cons.prems r have res: "om' = om3" "items = (on_i om, x) # items3"
    by (simp_all add: Let_def)
  have d2: "dom (on_posts ?om2) = insert (on_i om) (dom (on_posts om))"
    by auto
  from Cons.IH [OF r] have "length items3 = length drawn"
    and "fst ` set items3 \<subseteq> dom (on_posts om3)"
    and "dom (on_posts ?om2) \<subseteq> dom (on_posts om3)"
    by blast+
  with d2 res show ?case by auto
qed

lemma update_not_Nil: "AList.update k v al \<noteq> []"
  by (cases al) auto

lemma by_content_ok:
  "fst ` set scores \<subseteq> dom (on_posts om) \<Longrightarrow>
   \<exists>al. by_content om scores acc = Inr al \<and> (acc \<noteq> [] \<or> scores \<noteq> [] \<longrightarrow> al \<noteq> [])"
proof (induction om scores acc rule: by_content.induct)
  case (1 om acc)
  then show ?case by simp
next
  case (2 om post_id sc rest acc)
  from "2.prems" obtain x where x: "on_posts om post_id = Some x" by auto
  from "2.prems" have "fst ` set rest \<subseteq> dom (on_posts om)" by auto
  from "2.IH" [OF x this] x update_not_Nil [of x sc acc] show ?case by auto
qed

lemma online_fit_ok:
  assumes "fst ` set scores \<subseteq> dom (on_posts om)" and "scores \<noteq> []"
  shows "\<exists>om'. online_fit (m, om) scores = Inr (m, om') \<and> on_deltas om' \<noteq> []"
proof -
  from by_content_ok [OF assms(1), of "[]"] assms(2)
  obtain al where "by_content om scores [] = Inr al" and "al \<noteq> []" by auto
  then show ?thesis by (simp add: online_fit_def Let_def)
qed

lemma online_step_ok: "on_deltas om \<noteq> [] \<Longrightarrow> \<exists>m' om'. online_step (m, om) = Inr (m', om')"
  by (simp add: online_step_def mean_def)

lemma notebook_cycle_ok:
  assumes "0 < generator T"
  shows "\<exists>s'. online_cycle T notebook_online_ops s = Inr s'"
proof -
  obtain m om where mo: "om_objects (n_module s) = (m, om)" by (cases "om_objects (n_module s)")
  let ?w = "n_module s"
  let ?drawn = "map (om_tape ?w) [om_pos ?w..<om_pos ?w + generator T]"
  obtain om1 items where sl: "sample_loop om ?drawn = (om1, items)" by (cases "sample_loop om ?drawn")
  from sample_loop_items [OF sl] assms have li: "length items = generator T"
    and keys: "fst ` set items \<subseteq> dom (on_posts om1)" by simp_all
  let ?w1 = "?w\<lparr>om_objects := (m, om1), om_pos := om_pos ?w + generator T\<rparr>"
  from sl mo have sp: "sample_posts notebook_online_ops ?w (generator T) = (?w1, items)"
    by (simp add: notebook_online_ops_def sample_def)
  obtain f1 ids where pb: "publish (n_face s) (map snd items) = (f1, ids)"
    by (cases "publish (n_face s) (map snd items)")
  from publish_ids [OF pb] have lids: "length ids = length items" and sub: "set ids \<subseteq> dom (face_posts f1)"
    by simp_all
  from collect_ok [OF sub] obtain vs where co: "collect f1 ids = Inr vs" and lvs: "length vs = length ids"
    by blast
  let ?scores = "zip (map fst items) (map real_of_int vs)"
  from lvs lids have mf: "map fst ?scores = map fst items" by simp
  then have "fst ` set ?scores = fst ` set items" by (metis set_map)
  with keys have k: "fst ` set ?scores \<subseteq> dom (on_posts om1)" by simp
  from li lvs lids assms have ne: "?scores \<noteq> []" by (cases items; cases vs) simp_all
  from online_fit_ok [OF k ne] obtain om2 where fi: "online_fit (m, om1) ?scores = Inr (m, om2)"
    and d2: "on_deltas om2 \<noteq> []" by blast
  from online_step_ok [OF d2] obtain m3 om3 where st: "online_step (m, om2) = Inr (m3, om3)" by blast
  from fi have fs: "fit_scores notebook_online_ops ?w1 ?scores = Inr (?w1\<lparr>om_objects := (m, om2)\<rparr>)"
    by (simp add: notebook_online_ops_def)
  from st have ss: "step_scores notebook_online_ops (?w1\<lparr>om_objects := (m, om2)\<rparr>)
      = Inr (?w1\<lparr>om_objects := (m3, om3)\<rparr>)"
    by (simp add: notebook_online_ops_def)
  from sp pb co fs ss show ?thesis
    by (simp add: online_cycle_def Let_def)
qed

lemma online_cycle_log:
  "online_cycle T M s = Inr s' \<Longrightarrow>
   \<exists>c. n_events s' = n_events s @ tl (cycle_log (generator T) c)
      \<and> length (fst (snd c)) = length (fst c)
      \<and> map fst (snd (snd c)) = map fst (fst c)
      \<and> updates (n_stop s') = updates (n_stop s) + 1
      \<and> replay_online M (n_module s) (tl (cycle_log (generator T) c)) = Inr (n_module s')"
proof -
  assume run: "online_cycle T M s = Inr s'"
  obtain m1 items where sp: "sample_posts M (n_module s) (generator T) = (m1, items)"
    by (cases "sample_posts M (n_module s) (generator T)")
  obtain f1 ids where pb: "publish (n_face s) (map snd items) = (f1, ids)"
    by (cases "publish (n_face s) (map snd items)")
  from run sp pb obtain vs where co: "collect f1 ids = Inr vs"
    by (auto simp: online_cycle_def split: sum.splits)
  let ?scores = "zip (map fst items) (map real_of_int vs)"
  from run sp pb co obtain m2 where fs: "fit_scores M m1 ?scores = Inr m2"
    by (auto simp: online_cycle_def Let_def split: sum.splits)
  from run sp pb co fs obtain m3 where ss: "step_scores M m2 = Inr m3"
    by (auto simp: online_cycle_def Let_def split: sum.splits)
  from run sp pb co fs ss have s': "s' = s\<lparr>n_module := m3, n_face := f1,
                                        n_stop := (n_stop s)\<lparr>updates := updates (n_stop s) + 1\<rparr>,
                                        n_events := n_events s @
                                          [Sample (generator T) items, Wait,
                                           FacePost (map snd items) ids, FaceScore ids,
                                           FitScores ?scores, Step]\<rparr>"
    by (simp add: online_cycle_def Let_def)
  from publish_ids [OF pb] have lids: "length ids = length items" by simp
  from collect_length [OF co] lids have mf: "map fst ?scores = map fst items" by simp
  have "n_events s' = n_events s @ tl (cycle_log (generator T) (items, ids, ?scores))"
    using s' by (simp add: cycle_log_def)
  moreover have "replay_online M (n_module s) (tl (cycle_log (generator T) (items, ids, ?scores))) = Inr (n_module s')"
    using s' sp fs ss by (simp add: cycle_log_def)
  moreover have "updates (n_stop s') = updates (n_stop s) + 1" using s' by simp
  ultimately show ?thesis using lids mf
    by (intro exI [of _ "(items, ids, ?scores)"]) simp
qed

lemma replay_online_append:
  "replay_online M m (xs @ ys) =
     (case replay_online M m xs of Inl e \<Rightarrow> Inl e | Inr m' \<Rightarrow> replay_online M m' ys)"
  by (induction M m xs rule: replay_online.induct) (auto split: sum.splits)

lemma cycle_log_split: "cycle_log n c = QueryStop # tl (cycle_log n c)"
  by (simp add: cycle_log_def split: prod.splits)

lemma filter_query_cycle: "filter (\<lambda>e. e = QueryStop) (cycle_log n c) = [QueryStop]"
  by (simp add: cycle_log_def split: prod.splits)

lemma filter_query_cycles:
  "length (filter (\<lambda>e. e = QueryStop) (concat (map (cycle_log n) cs))) = length cs"
  by (induction cs) (simp_all add: filter_query_cycle)

lemma online_loop_log:
  "online_loop fuel T M s = Some (Inr s') \<Longrightarrow>
   \<exists>cs. n_events s' = n_events s @ concat (map (cycle_log (generator T)) cs) @ [QueryStop]
       \<and> updates (n_stop s') = updates (n_stop s) + length cs
       \<and> online_stop_condition T (n_stop s')
       \<and> list_all (\<lambda>c. length (fst (snd c)) = length (fst c) \<and> map fst (snd (snd c)) = map fst (fst c)) cs
       \<and> replay_online M (n_module s) (concat (map (cycle_log (generator T)) cs) @ [QueryStop]) = Inr (n_module s')"
proof (induction fuel arbitrary: s)
  case 0
  then show ?case by simp
next
  case (Suc fuel)
  let ?s1 = "s\<lparr>n_events := n_events s @ [QueryStop]\<rparr>"
  show ?case
  proof (cases "online_stop_condition T (n_stop s)")
    case True
    with Suc.prems have "s' = ?s1" by (simp add: Let_def)
    with True show ?thesis
      by (intro exI [of _ "[]"]) simp
  next
    case False
    with Suc.prems obtain s2 where cy: "online_cycle T M ?s1 = Inr s2"
      and rest: "online_loop fuel T M s2 = Some (Inr s')"
      by (auto simp: Let_def split: sum.splits)
    from online_cycle_log [OF cy] obtain c where
      e2: "n_events s2 = n_events s @ [QueryStop] @ tl (cycle_log (generator T) c)"
      and wf: "length (fst (snd c)) = length (fst c) \<and> map fst (snd (snd c)) = map fst (fst c)"
      and u2: "updates (n_stop s2) = updates (n_stop s) + 1"
      and r2: "replay_online M (n_module s) (tl (cycle_log (generator T) c)) = Inr (n_module s2)"
      by auto
    from e2 cycle_log_split [of "generator T" c]
    have e2': "n_events s2 = n_events s @ cycle_log (generator T) c" by simp
    from r2 cycle_log_split [of "generator T" c]
    have r2': "replay_online M (n_module s) (cycle_log (generator T) c) = Inr (n_module s2)"
      by (metis replay_online.simps(5) event.distinct(1))
    from Suc.IH [OF rest] obtain cs where
      ev: "n_events s' = n_events s2 @ concat (map (cycle_log (generator T)) cs) @ [QueryStop]"
      and up: "updates (n_stop s') = updates (n_stop s2) + length cs"
      and sc: "online_stop_condition T (n_stop s')"
      and wfs: "list_all (\<lambda>c. length (fst (snd c)) = length (fst c) \<and> map fst (snd (snd c)) = map fst (fst c)) cs"
      and rp: "replay_online M (n_module s2) (concat (map (cycle_log (generator T)) cs) @ [QueryStop]) = Inr (n_module s')"
      by blast
    have "n_events s' = n_events s @ concat (map (cycle_log (generator T)) (c # cs)) @ [QueryStop]"
      using ev e2' by simp
    moreover have "updates (n_stop s') = updates (n_stop s) + length (c # cs)"
      using up u2 by simp
    moreover have "list_all (\<lambda>c. length (fst (snd c)) = length (fst c) \<and> map fst (snd (snd c)) = map fst (fst c)) (c # cs)"
      using wf wfs by simp
    moreover have "replay_online M (n_module s) (concat (map (cycle_log (generator T)) (c # cs)) @ [QueryStop]) = Inr (n_module s')"
      using rp r2' by (simp add: replay_online_append del: append_assoc)
    ultimately show ?thesis using sc by blast
  qed
qed

lemma online_demo_terminates:
  "updates (n_stop s) \<le> 100 \<Longrightarrow> 100 - updates (n_stop s) < fuel \<Longrightarrow>
   \<exists>s'. online_loop fuel online_trainer notebook_online_ops s = Some (Inr s')
        \<and> updates (n_stop s') = 100"
proof (induction fuel arbitrary: s)
  case 0
  then show ?case by simp
next
  case (Suc fuel)
  let ?s1 = "s\<lparr>n_events := n_events s @ [QueryStop]\<rparr>"
  show ?case
  proof (cases "online_stop_condition online_trainer (n_stop s)")
    case True
    then have "100 \<le> updates (n_stop s)"
      by (simp add: online_trainer_def MaxUpdates_def)
    with Suc.prems(1) True show ?thesis
      by (simp add: Let_def)
  next
    case False
    then have lt: "updates (n_stop s) < 100"
      by (simp add: online_trainer_def MaxUpdates_def)
    have "0 < generator online_trainer" by (simp add: online_trainer_def)
    from notebook_cycle_ok [OF this] obtain s2
      where cy: "online_cycle online_trainer notebook_online_ops ?s1 = Inr s2" by blast
    from online_cycle_log [OF cy] have "updates (n_stop s2) = updates (n_stop s) + 1" by auto
    with lt Suc.prems(2) have "updates (n_stop s2) \<le> 100" and "100 - updates (n_stop s2) < fuel"
      by simp_all
    from Suc.IH [OF this] obtain s' where
      "online_loop fuel online_trainer notebook_online_ops s2 = Some (Inr s')"
      and "updates (n_stop s') = 100" by blast
    with False cy show ?thesis
      by (simp add: Let_def)
  qed
qed


lemma online_start_fields:
  "n_events (online_start m f) = [] \<and> n_module (online_start m f) = m
   \<and> n_stop (online_start m f) = stop_state_init"
  by (simp add: online_start_def)

text \<open>
  C2. \<^verbatim>\<open>train(module, face)\<close> of the online trainer: whenever it returns, its log is a
  sequence of cycles followed by the query that ended the training; each cycle is one
  query of the stop condition, a sample of the module, the scheduler's wait, the
  publication of the sampled contents with \<^verbatim>\<open>face.post\<close> (one identifier per content), the
  collection of their scores with \<^verbatim>\<open>face.score\<close>, a \<^verbatim>\<open>fit\<close> on the scores under the
  sample identifiers, and a \<^verbatim>\<open>step\<close>. The stop condition is queried once per iteration:
  the log has one query per update and the final one. The stop condition is satisfied at
  the end, and \<^verbatim>\<open>train\<close> returns the module as the last step left it. With the notebook's
  trainer (\<^verbatim>\<open>MaxUpdates(100)\<close>, ten posts per cycle) and online module, on any face state,
  module state and random outcomes, the training does return, without an exception,
  after exactly 100 updates.
\<close>

theorem online_train_cycles:
  "(\<forall>s. online_loop fuel T M (online_start m f) = Some (Inr s) \<longrightarrow>
        (\<exists>cs. n_events s = concat (map (cycle_log (generator T)) cs) @ [QueryStop]
            \<and> length cs = updates (n_stop s)
            \<and> list_all (\<lambda>c. length (fst (snd c)) = length (fst c)
                              \<and> map fst (snd (snd c)) = map fst (fst c)) cs)
      \<and> length (filter (\<lambda>e. e = QueryStop) (n_events s)) = updates (n_stop s) + 1
      \<and> online_stop_condition T (n_stop s)
      \<and> online_train fuel T M m f = Some (Inr (n_module s)))
   \<and> (100 < fuel' \<longrightarrow>
        (\<exists>s. online_loop fuel' online_trainer notebook_online_ops (online_start m' f') = Some (Inr s)
           \<and> updates (n_stop s) = 100
           \<and> MaxUpdates 100 (n_stop s)))"
proof -
  have a: "(\<exists>cs. n_events s = concat (map (cycle_log (generator T)) cs) @ [QueryStop]
            \<and> length cs = updates (n_stop s)
            \<and> list_all (\<lambda>c. length (fst (snd c)) = length (fst c)
                              \<and> map fst (snd (snd c)) = map fst (fst c)) cs)
      \<and> length (filter (\<lambda>e. e = QueryStop) (n_events s)) = updates (n_stop s) + 1
      \<and> online_stop_condition T (n_stop s)
      \<and> online_train fuel T M m f = Some (Inr (n_module s))"
    if run: "online_loop fuel T M (online_start m f) = Some (Inr s)" for s
  proof -
    from online_loop_log [OF run] online_start_fields [of m f]
    obtain cs where ev: "n_events s = concat (map (cycle_log (generator T)) cs) @ [QueryStop]"
      and up: "updates (n_stop s) = length cs"
      and sc: "online_stop_condition T (n_stop s)"
      and wf: "list_all (\<lambda>c. length (fst (snd c)) = length (fst c)
                              \<and> map fst (snd (snd c)) = map fst (fst c)) cs"
      by (auto simp: stop_state_init_def)
    from ev up filter_query_cycles [of "generator T" cs]
    have q: "length (filter (\<lambda>e. e = QueryStop) (n_events s)) = updates (n_stop s) + 1"
      by simp
    from run have tr: "online_train fuel T M m f = Some (Inr (n_module s))"
      by (simp add: online_train_def)
    from ev up wf have "\<exists>cs. n_events s = concat (map (cycle_log (generator T)) cs) @ [QueryStop]
            \<and> length cs = updates (n_stop s)
            \<and> list_all (\<lambda>c. length (fst (snd c)) = length (fst c)
                              \<and> map fst (snd (snd c)) = map fst (fst c)) cs"
      by (intro exI [of _ cs]) simp
    with q sc tr show ?thesis by simp
  qed
  have b: "\<exists>s. online_loop fuel' online_trainer notebook_online_ops (online_start m' f') = Some (Inr s)
           \<and> updates (n_stop s) = 100
           \<and> MaxUpdates 100 (n_stop s)"
    if "100 < fuel'"
  proof -
    have "updates (n_stop (online_start m' f')) \<le> 100"
      and "100 - updates (n_stop (online_start m' f')) < fuel'"
      using that by (simp_all add: online_start_def stop_state_init_def)
    from online_demo_terminates [OF this] show ?thesis
      by (auto simp: MaxUpdates_def)
  qed
  from a b show ?thesis by simp
qed

text \<open>
  One cycle of two posts, the first drawn True and the second False; and the notebook's own
  training, which returns with 101 units of fuel.
\<close>

theorem online_train_cycles_witness:
  "(case online_loop 2 \<lparr>online_stop_condition = MaxUpdates 1, generator = 2, scheduler = 0\<rparr>
          notebook_online_ops
          (online_start \<lparr>om_objects = (Model_default, MyOnlineModule_init 0.1),
                         om_tape = (\<lambda>k. k = 0), om_pos = 0\<rparr> MyFace_init) of
      Some (Inr s) \<Rightarrow>
        n_events s = [QueryStop, Sample 2 [(0, True), (1, False)], Wait,
                      FacePost [True, False] [0, 1], FaceScore [0, 1],
                      FitScores [(0, 1), (1, - 1)], Step, QueryStop]
        \<and> n_stop s = \<lparr>epochs = 0, updates = 1\<rparr>
        \<and> length (filter (\<lambda>e. e = QueryStop) (n_events s)) = 2
        \<and> get_p (fst (om_objects (n_module s))) = 0.55
    | _ \<Rightarrow> False)
   \<and> (\<exists>s. online_loop 101 online_trainer notebook_online_ops
              (online_start \<lparr>om_objects = (Model_default, MyOnlineModule_init 0.1),
                             om_tape = (\<lambda>k. k = 0), om_pos = 0\<rparr> MyFace_init)
            = Some (Inr s)
          \<and> updates (n_stop s) = 100)"
proof -
  let ?T = "\<lparr>online_stop_condition = MaxUpdates 1, generator = 2, scheduler = 0\<rparr>"
  let ?w = "\<lparr>om_objects = (Model_default, MyOnlineModule_init 0.1),
                         om_tape = (\<lambda>k. k = 0), om_pos = 0\<rparr>"
  obtain s where run: "online_loop 2 ?T notebook_online_ops (online_start ?w MyFace_init) = Some (Inr s)"
    and ev: "n_events s = [QueryStop, Sample 2 [(0, True), (1, False)], Wait,
                      FacePost [True, False] [0, 1], FaceScore [0, 1],
                      FitScores [(0, 1), (1, - 1)], Step, QueryStop]"
    and st: "n_stop s = \<lparr>epochs = 0, updates = 1\<rparr>"
    and p: "get_p (fst (om_objects (n_module s))) = 0.55"
    by (simp add: run_defs)
  note th = online_train_cycles [of 2 ?T notebook_online_ops ?w MyFace_init 101 ?w MyFace_init]
  from th run have q: "length (filter (\<lambda>e. e = QueryStop) (n_events s)) = updates (n_stop s) + 1"
    by blast
  from th have demo: "\<exists>s. online_loop 101 online_trainer notebook_online_ops
              (online_start ?w MyFace_init) = Some (Inr s)
          \<and> updates (n_stop s) = 100"
    by auto
  from q st have q2: "length (filter (\<lambda>e. e = QueryStop) (n_events s)) = 2" by simp
  from run ev st p q2 demo show ?thesis by simp
qed

section \<open>The trainers and the module\<close>

text \<open>
  C8. Over a whole \<^verbatim>\<open>train\<close> call, offline or online, the module changes only through the
  operations of its contract: the module a training returns is the module it was given
  after exactly the \<^verbatim>\<open>fit\<close>, \<^verbatim>\<open>step\<close> and \<^verbatim>\<open>sample\<close> calls of the log, in the order of the
  log. The trainers are defined for a module state of any type, which they can neither
  read nor build, so the model parameters inside it are out of their reach.
\<close>

theorem trainers_reach_module_through_contract:
  "(\<forall>s. offline_loop fuel T M (offline_start T limit m f) = Some (Inr s) \<longrightarrow>
        replay_offline M m (o_events s) = Inr (o_module s))
   \<and> (\<forall>s. online_loop fuel' T' M' (online_start m' f') = Some (Inr s) \<longrightarrow>
        replay_online M' m' (n_events s) = Inr (n_module s))"
proof -
  have a: "replay_offline M m (o_events s) = Inr (o_module s)"
    if run: "offline_loop fuel T M (offline_start T limit m f) = Some (Inr s)" for s
    using offline_loop_log [OF run] offline_start_fields [of T limit m f] by auto
  have b: "replay_online M' m' (n_events s) = Inr (n_module s)"
    if run: "online_loop fuel' T' M' (online_start m' f') = Some (Inr s)" for s
    using online_loop_log [OF run] online_start_fields [of m' f'] by auto
  from a b show ?thesis by simp
qed

text \<open>
  The two small runs again: replaying the module calls of each log on the initial module
  gives the module the training ended with.
\<close>

theorem trainers_reach_module_through_contract_witness:
  "(case offline_loop 2
         \<lparr>stop_condition = MaxEpochs 1,
          posts_loader = \<lparr>batch_size = 1, dataset_factory = MemoryCachingDatasetFactory\<rparr>\<rparr>
         notebook_offline_ops
         (offline_start
            \<lparr>stop_condition = MaxEpochs 1,
             posts_loader = \<lparr>batch_size = 1, dataset_factory = MemoryCachingDatasetFactory\<rparr>\<rparr>
            (Some 2) (Model_default, MyOfflineModule_init 0.001) MyFace_init) of
         Some (Inr s) \<Rightarrow>
           o_events s = [QueryStop, FaceScrap, Fit [True], Step, Fit [False], Step, QueryStop]
           \<and> replay_offline notebook_offline_ops (Model_default, MyOfflineModule_init 0.001)
                [QueryStop, FaceScrap, Fit [True], Step, Fit [False], Step, QueryStop]
               = Inr (o_module s)
       | _ \<Rightarrow> False)
   \<and> (case online_loop 2 \<lparr>online_stop_condition = MaxUpdates 1, generator = 2, scheduler = 0\<rparr>
          notebook_online_ops
          (online_start \<lparr>om_objects = (Model_default, MyOnlineModule_init 0.1),
                         om_tape = (\<lambda>k. k = 0), om_pos = 0\<rparr> MyFace_init) of
      Some (Inr s) \<Rightarrow>
        replay_online notebook_online_ops
           \<lparr>om_objects = (Model_default, MyOnlineModule_init 0.1), om_tape = (\<lambda>k. k = 0), om_pos = 0\<rparr>
           [QueryStop, Sample 2 [(0, True), (1, False)], Wait,
            FacePost [True, False] [0, 1], FaceScore [0, 1],
            FitScores [(0, 1), (1, - 1)], Step, QueryStop]
          = Inr (n_module s)
    | _ \<Rightarrow> False)"
proof -
  let ?T = "\<lparr>stop_condition = MaxEpochs 1,
      posts_loader = \<lparr>batch_size = 1, dataset_factory = MemoryCachingDatasetFactory\<rparr>\<rparr>"
  let ?T' = "\<lparr>online_stop_condition = MaxUpdates 1, generator = 2, scheduler = 0\<rparr>"
  let ?w = "\<lparr>om_objects = (Model_default, MyOnlineModule_init 0.1),
                         om_tape = (\<lambda>k. k = 0), om_pos = 0\<rparr>"
  obtain s where run: "offline_loop 2 ?T notebook_offline_ops
         (offline_start ?T (Some 2) (Model_default, MyOfflineModule_init 0.001) MyFace_init) = Some (Inr s)"
    and ev: "o_events s = [QueryStop, FaceScrap, Fit [True], Step, Fit [False], Step, QueryStop]"
    by (simp add: run_defs)
  obtain s' where run': "online_loop 2 ?T' notebook_online_ops (online_start ?w MyFace_init) = Some (Inr s')"
    and ev': "n_events s' = [QueryStop, Sample 2 [(0, True), (1, False)], Wait,
                      FacePost [True, False] [0, 1], FaceScore [0, 1],
                      FitScores [(0, 1), (1, - 1)], Step, QueryStop]"
    by (simp add: run_defs)
  from trainers_reach_module_through_contract [of 2 ?T notebook_offline_ops "Some 2"
      "(Model_default, MyOfflineModule_init 0.001)" MyFace_init 2 ?T' notebook_online_ops ?w MyFace_init]
    run run'
  have "replay_offline notebook_offline_ops (Model_default, MyOfflineModule_init 0.001) (o_events s) = Inr (o_module s)"
    and "replay_online notebook_online_ops ?w (n_events s') = Inr (n_module s')"
    by blast+
  with run ev run' ev' show ?thesis by simp
qed

end
